theory Spec2Isabelle
  imports Main "HOL-Library.AList"
begin

section \<open>The jobs table\<close>

text \<open>
  A job is a database record (queue.py, class JobQueue). The columns are those the queries of
  queue.py name and the dictionary \<^verbatim>\<open>add_job\<close> builds. The same shape occurs twice:
  as a row of the table, where \<^verbatim>\<open>id\<close> and \<^verbatim>\<open>status\<close> always have a value, and
  as the dictionary held by a Job handle, where a key may be missing (the dictionary built by
  \<^verbatim>\<open>add_job\<close> has neither \<^verbatim>\<open>id\<close> nor \<^verbatim>\<open>status\<close>). The record is therefore
  polymorphic in those two fields. Timestamps are Python integers (seconds).

  The \<^verbatim>\<open>status\<close> text is kept as the list of its appended lines, each with the time it
  was appended at.
\<close>

record ('i, 's) job_fields =
  job_id :: 'i
  pythonfile :: string
  remote_id :: string
  details :: string
  timestamp :: int
  timestamp_after :: int
  timestamp_claimed :: int
  timestamp_lastclaimed :: int
  interval :: int
  attempts :: int
  status :: 's

type_synonym status_text = "(int \<times> string) list"
type_synonym row = "(nat, status_text) job_fields"
type_synonym job_data = "(nat option, status_text option) job_fields"

text \<open>
  Modelled from the spec: the class Job (scheduler/job.py is not among the sources). A Job
  handle holds the dictionary it was built from (\<^verbatim>\<open>job.data\<close>); \<^verbatim>\<open>Job.get_by_data\<close>
  is the constructor queue.py calls on a fetched row and on the dictionary of \<^verbatim>\<open>add_job\<close>.
\<close>

datatype job = Job (data: job_data)

definition get_by_data :: "job_data \<Rightarrow> job" where
  "get_by_data d = Job d"

text \<open>A row as the cursor hands it to Python: a dictionary with every column.\<close>

definition fetched :: "row \<Rightarrow> job_data" where
  "fetched r =
     \<lparr> job_id = Some (job_id r), pythonfile = pythonfile r, remote_id = remote_id r,
       details = details r, timestamp = timestamp r, timestamp_after = timestamp_after r,
       timestamp_claimed = timestamp_claimed r,
       timestamp_lastclaimed = timestamp_lastclaimed r, interval = interval r,
       attempts = attempts r, status = Some (status r) \<rparr>"

text \<open>
  The database: the rows of \<^verbatim>\<open>jobs\<close> in storage order and the next value of the identity
  column.
\<close>

record database =
  jobs :: "row list"
  next_id :: nat

datatype error =
    UniqueViolation
  | UndefinedConstraint

section \<open>Database.insert (database.py)\<close>

text \<open>
  Modelled from the spec: the schema (database.sql is not among the sources) declares
  \<^verbatim>\<open>id\<close> an identity primary key, \<^verbatim>\<open>status\<close> with default \<^verbatim>\<open>''\<close> and
  \<^verbatim>\<open>unique (pythonfile, remote_id)\<close>.
\<close>

definition conflicts :: "database \<Rightarrow> job_data \<Rightarrow> bool" where
  "conflicts db d \<longleftrightarrow>
     (\<exists>r \<in> set (jobs db). pythonfile r = pythonfile d \<and> remote_id r = remote_id d)"

definition conflicts_id :: "database \<Rightarrow> job_data \<Rightarrow> bool" where
  "conflicts_id db d \<longleftrightarrow>
     (case job_id d of None \<Rightarrow> False | Some k \<Rightarrow> (\<exists>r \<in> set (jobs db). job_id r = k))"

definition stored :: "nat \<Rightarrow> job_data \<Rightarrow> row" where
  "stored i d =
     \<lparr> job_id = (case job_id d of None \<Rightarrow> i | Some k \<Rightarrow> k),
       pythonfile = pythonfile d, remote_id = remote_id d,
       details = details d, timestamp = timestamp d, timestamp_after = timestamp_after d,
       timestamp_claimed = timestamp_claimed d,
       timestamp_lastclaimed = timestamp_lastclaimed d, interval = interval d,
       attempts = attempts d, status = (case status d of None \<Rightarrow> [] | Some s \<Rightarrow> s) \<rparr>"

text \<open>
  \<^verbatim>\<open>insert(table, data, commit, safe, constraints)\<close> on the table \<^verbatim>\<open>jobs\<close>. With
  \<^verbatim>\<open>safe\<close> the statement ends in \<^verbatim>\<open>ON CONFLICT (constraints) DO NOTHING\<close>: a row
  that collides on the named unique columns is not inserted and the row count is 0. The
  conflict target has to name a unique index of the table. Without \<^verbatim>\<open>safe\<close> the
  collision is the driver's error. The result is the new database and the row count.
\<close>

definition on_conflict :: "bool \<Rightarrow> string list \<Rightarrow> string set \<Rightarrow> bool" where
  "on_conflict safe constraints index \<longleftrightarrow>
     safe \<and> (constraints = [] \<or> set constraints = index)"

definition insert_row ::
  "database \<Rightarrow> job_data \<Rightarrow> bool \<Rightarrow> string list \<Rightarrow> error + (database \<times> nat)" where
  "insert_row db d safe constraints =
     (if safe \<and> constraints \<noteq> [] \<and> set constraints \<noteq> {''pythonfile'', ''remote_id''}
           \<and> set constraints \<noteq> {''id''}
      then Inl UndefinedConstraint
      else if conflicts db d
      then (if on_conflict safe constraints {''pythonfile'', ''remote_id''}
            then Inr (db, 0) else Inl UniqueViolation)
      else if conflicts_id db d
      then (if on_conflict safe constraints {''id''}
            then Inr (db, 0) else Inl UniqueViolation)
      else Inr (db \<lparr> jobs := jobs db @ [stored (next_id db) d],
                     next_id := Suc (next_id db) \<rparr>, 1))"

section \<open>JobQueue (queue.py)\<close>

text \<open>Python truthiness of an optional string argument: \<^verbatim>\<open>None\<close>, \<^verbatim>\<open>False\<close> and
  the empty string are false.\<close>

definition truthy :: "string option \<Rightarrow> bool" where
  "truthy s \<longleftrightarrow> (case s of None \<Rightarrow> False | Some t \<Rightarrow> t \<noteq> [])"

text \<open>
  The condition both queries add for claimable jobs:
  \<^verbatim>\<open>timestamp_claimed = 0 AND timestamp_after < %s AND
  (interval = 0 OR timestamp_lastclaimed + interval < %s)\<close>.
\<close>

definition claimable :: "int \<Rightarrow> row \<Rightarrow> bool" where
  "claimable now r \<longleftrightarrow>
     timestamp_claimed r = 0 \<and> timestamp_after r < now \<and>
     (interval r = 0 \<or> timestamp_lastclaimed r + interval r < now)"

text \<open>\<^verbatim>\<open>SELECT * FROM jobs WHERE ... ORDER BY timestamp ASC\<close>: the matching rows, sorted
  by \<^verbatim>\<open>timestamp\<close>; rows with equal timestamps stay in storage order.\<close>

definition select_jobs :: "database \<Rightarrow> (row \<Rightarrow> bool) \<Rightarrow> row list" where
  "select_jobs db cond = sort_key timestamp (filter cond (jobs db))"

text \<open>\<^verbatim>\<open>get_job(pythonfile, timestamp=-1)\<close>; \<^verbatim>\<open>clock\<close> is \<^verbatim>\<open>int(time.time())\<close>.\<close>

definition get_job :: "database \<Rightarrow> int \<Rightarrow> string \<Rightarrow> int \<Rightarrow> job option" where
  "get_job db clock pf ts =
     (let t = (if ts < 0 then clock else ts) in
      case select_jobs db (\<lambda>r. pythonfile r = pf \<and> claimable t r) of
        [] \<Rightarrow> None
      | r # _ \<Rightarrow> Some (get_by_data (fetched r)))"

text \<open>The WHERE clause \<^verbatim>\<open>get_all_jobs\<close> starts from.\<close>

definition job_filter :: "string \<Rightarrow> string option \<Rightarrow> row \<Rightarrow> bool" where
  "job_filter pf rid r \<longleftrightarrow>
     (if truthy rid then remote_id r = the rid
      else if pf \<noteq> ''*'' then pythonfile r = pf
      else pythonfile r \<noteq> [])"

text \<open>\<^verbatim>\<open>get_all_jobs(pythonfile="*", remote_id=False, restrict_claimable=True)\<close>. The
  branch for the driver's ProgrammingError on an empty result gives the empty list, as the
  query itself does.\<close>

definition get_all_jobs ::
  "database \<Rightarrow> int \<Rightarrow> string \<Rightarrow> string option \<Rightarrow> bool \<Rightarrow> job list" where
  "get_all_jobs db clock pf rid restrict_claimable =
     map (\<lambda>r. get_by_data (fetched r))
       (select_jobs db
          (\<lambda>r. if restrict_claimable then job_filter pf rid r \<and> claimable clock r
               else job_filter pf rid r))"

text \<open>\<^verbatim>\<open>add_job(pythonfile, details, remote_id, claim_after, interval)\<close>. \<^verbatim>\<open>uuid\<close> is
  the value \<^verbatim>\<open>str(uuid4())\<close> would give, \<^verbatim>\<open>dets\<close> the text \<^verbatim>\<open>json.dumps(details)\<close>.\<close>

definition add_job_data ::
  "int \<Rightarrow> string \<Rightarrow> string \<Rightarrow> string \<Rightarrow> string option \<Rightarrow> int \<Rightarrow> int \<Rightarrow> job_data" where
  "add_job_data clock uuid pf dets rid claim_after ival =
     \<lparr> job_id = None, pythonfile = pf,
       remote_id = (if \<not> truthy rid then uuid else the rid),
       details = dets, timestamp = clock, timestamp_after = claim_after,
       timestamp_claimed = 0, timestamp_lastclaimed = 0, interval = ival,
       attempts = 0, status = None \<rparr>"

definition add_job ::
  "database \<Rightarrow> int \<Rightarrow> string \<Rightarrow> string \<Rightarrow> string \<Rightarrow> string option \<Rightarrow> int \<Rightarrow> int
     \<Rightarrow> error + (database \<times> job)" where
  "add_job db clock uuid pf dets rid claim_after ival =
     (let d = add_job_data clock uuid pf dets rid claim_after ival in
      case insert_row db d True [''pythonfile'', ''remote_id''] of
        Inl e \<Rightarrow> Inl e
      | Inr (db', n) \<Rightarrow> Inr (db', get_by_data d))"

text \<open>\<^verbatim>\<open>get_place_in_queue(job)\<close>\<close>

definition get_place_in_queue :: "database \<Rightarrow> int \<Rightarrow> job \<Rightarrow> nat" where
  "get_place_in_queue db clock j =
     (if timestamp_claimed (data j) > 0 then 0
      else
        let all_queued = get_all_jobs db clock (pythonfile (data j)) None True;
            our_timestamp = timestamp (data j)
        in length (filter (\<lambda>queued_job.
              timestamp (data queued_job) < our_timestamp
              \<or> timestamp_claimed (data queued_job) > 0) all_queued))"

section \<open>Scheduler (scheduler.py)\<close>

text \<open>\<^verbatim>\<open>has_jobs()\<close>: \<^verbatim>\<open>len(self._manager.queue.get_all_jobs()) > 0\<close>\<close>

definition has_jobs :: "database \<Rightarrow> int \<Rightarrow> bool" where
  "has_jobs db clock \<longleftrightarrow> length (get_all_jobs db clock ''*'' None True) > 0"

section \<open>Job operations\<close>

text \<open>
  Modelled from the spec: the methods of Job (scheduler/job.py is not among the sources),
  after section 4.2 of the specification. The handle finds its row by \<^verbatim>\<open>id\<close>.
  \<^item> \<^verbatim>\<open>claim()\<close>: the update \<^verbatim>\<open>timestamp_claimed = now, timestamp_lastclaimed = now,
    attempts += 1 WHERE id = self.id AND timestamp_claimed = 0\<close>; when no row is affected
    JobClaimed is raised (the result \<open>None\<close>); on success the handle's copy is refreshed.
  \<^item> \<^verbatim>\<open>finish()\<close>: with \<^verbatim>\<open>interval == 0\<close> the row is deleted; with
    \<^verbatim>\<open>interval > 0\<close> \<^verbatim>\<open>timestamp_claimed = 0, timestamp_lastclaimed = now\<close> is set.
    (Nothing is said for a negative interval; the row is then left as it is.)
  \<^item> \<^verbatim>\<open>release(delay=0)\<close>: \<^verbatim>\<open>timestamp_claimed = 0, timestamp_after = now + delay\<close>.
  \<^item> \<^verbatim>\<open>add_status(text)\<close>: a line with the time is appended to \<^verbatim>\<open>status\<close>.
\<close>

definition is_row_of :: "job \<Rightarrow> row \<Rightarrow> bool" where
  "is_row_of j r \<longleftrightarrow> job_id (data j) = Some (job_id r)"

definition claim :: "job \<Rightarrow> int \<Rightarrow> database \<Rightarrow> (database \<times> job) option" where
  "claim j now db =
     (case filter (\<lambda>r. is_row_of j r \<and> timestamp_claimed r = 0) (jobs db) of
        [] \<Rightarrow> None
      | r # _ \<Rightarrow>
          let upd = (\<lambda>r. r \<lparr> timestamp_claimed := now, timestamp_lastclaimed := now,
                             attempts := attempts r + 1 \<rparr>)
          in Some (db \<lparr> jobs := map (\<lambda>r. if is_row_of j r \<and> timestamp_claimed r = 0
                                           then upd r else r) (jobs db) \<rparr>,
                   Job (fetched (upd r))))"

definition finish_row :: "int \<Rightarrow> row \<Rightarrow> row list" where
  "finish_row now r =
     (if interval r = 0 then []
      else if interval r > 0
      then [r \<lparr> timestamp_claimed := 0, timestamp_lastclaimed := now \<rparr>]
      else [r])"

definition finish :: "job \<Rightarrow> int \<Rightarrow> database \<Rightarrow> database" where
  "finish j now db =
     db \<lparr> jobs := concat (map (\<lambda>r. if is_row_of j r then finish_row now r else [r])
                           (jobs db)) \<rparr>"

definition release :: "job \<Rightarrow> int \<Rightarrow> int \<Rightarrow> database \<Rightarrow> database" where
  "release j delay now db =
     db \<lparr> jobs := map (\<lambda>r. if is_row_of j r
                            then r \<lparr> timestamp_claimed := 0, timestamp_after := now + delay \<rparr>
                            else r) (jobs db) \<rparr>"

definition add_status :: "job \<Rightarrow> string \<Rightarrow> int \<Rightarrow> database \<Rightarrow> database" where
  "add_status j txt now db =
     db \<lparr> jobs := map (\<lambda>r. if is_row_of j r then r \<lparr> status := status r @ [(now, txt)] \<rparr>
                            else r) (jobs db) \<rparr>"

section \<open>BasicWorker (worker.py)\<close>

text \<open>The class attributes of a worker class. \<^verbatim>\<open>max_workers\<close> is a number of workers.
  \<^verbatim>\<open>has_request_abort\<close> is what \<^verbatim>\<open>hasattr(worker, "request_abort")\<close> gives in
  the manager.\<close>

record worker_class =
  wtype :: string
  max_workers :: nat
  has_request_abort :: bool

text \<open>The flag values. Python's \<^verbatim>\<open>False\<close> equals 0.\<close>

definition INTERRUPT_NONE :: int where "INTERRUPT_NONE = 0"
definition INTERRUPT_RETRY :: int where "INTERRUPT_RETRY = 1"
definition INTERRUPT_CANCEL :: int where "INTERRUPT_CANCEL = 2"

text \<open>A worker object; \<^verbatim>\<open>wid\<close> stands for the identity of the object.\<close>

record worker =
  wid :: nat
  wclass :: worker_class
  wjob :: job
  interrupted :: int
  init_time :: int

definition new_worker :: "worker_class \<Rightarrow> nat \<Rightarrow> job \<Rightarrow> int \<Rightarrow> worker" where
  "new_worker c i j now =
     \<lparr> wid = i, wclass = c, wjob = j, interrupted = INTERRUPT_NONE, init_time = now \<rparr>"


text \<open>
  What \<^verbatim>\<open>work()\<close> does is the subclass's. For the scaffold it either returns or raises:
  a WorkerInterruptedException, another exception derived from \<^verbatim>\<open>Exception\<close> (with
  its class name, its text and the frames of its traceback, file name and line), or an
  exception that does not derive from \<^verbatim>\<open>Exception\<close> (SystemExit, KeyboardInterrupt,
  GeneratorExit, or a class the worker derives from BaseException).
\<close>

datatype raised =
    WorkerInterruptedException
  | Exception string string "(string \<times> nat) list"
  | BaseException string

datatype outcome = Returns | Raises raised

text \<open>What the scaffold does with the job, the log and itself, in the order it does it.\<close>

datatype action =
    LogInfo string
  | LogError string
  | JobRelease int
  | JobFinish
  | JobAddStatus string
  | Propagate string

function str_nat :: "nat \<Rightarrow> string" where
  "str_nat n =
     (if n < 10 then [''0123456789'' ! n]
      else str_nat (n div 10) @ [''0123456789'' ! (n mod 10)])"
  by pat_completeness auto
termination
  by (relation "measure id") auto

definition join_str :: "string \<Rightarrow> string list \<Rightarrow> string" where
  "join_str sep xs =
     (case xs of [] \<Rightarrow> [] | x # ys \<Rightarrow> x @ concat (map (\<lambda>y. sep @ y) ys))"

text \<open>\<^verbatim>\<open>frame.filename.split("/").pop() + ":" + str(frame.lineno)\<close>, joined by
  \<^verbatim>\<open>"->"\<close>\<close>

definition frame_str :: "string \<times> nat \<Rightarrow> string" where
  "frame_str f =
     rev (takeWhile (\<lambda>c. c \<noteq> CHR ''/'') (rev (fst f))) @ '':'' @ str_nat (snd f)"

definition location :: "(string \<times> nat) list \<Rightarrow> string" where
  "location frames = join_str ''->'' (map frame_str frames)"

text \<open>\<^verbatim>\<open>after_work()\<close> and \<^verbatim>\<open>abort()\<close> of BasicWorker\<close>

definition after_work :: "worker \<Rightarrow> action list" where
  "after_work w = [JobFinish]"

definition abort_worker :: "worker \<Rightarrow> action list" where
  "abort_worker w = []"

text \<open>\<^verbatim>\<open>run()\<close>, given how \<^verbatim>\<open>work()\<close> ended. The call of \<^verbatim>\<open>after_work()\<close> stands
  after the \<^verbatim>\<open>try\<close> statement, so it follows every branch that does not raise.\<close>

definition run :: "worker \<Rightarrow> outcome \<Rightarrow> action list" where
  "run w out =
     (case out of
        Returns \<Rightarrow> after_work w
      | Raises WorkerInterruptedException \<Rightarrow>
          [LogInfo (''Worker '' @ wtype (wclass w) @ '' interrupted'')]
          @ (if interrupted w = INTERRUPT_RETRY then [JobRelease 10]
             else if interrupted w = INTERRUPT_CANCEL then [JobFinish]
             else [])
          @ abort_worker w
          @ after_work w
      | Raises (Exception name msg frames) \<Rightarrow>
          [LogError (''Worker '' @ wtype (wclass w) @ '' raised exception '' @ name
                     @ '' and will abort: '' @ msg @ '' at '' @ location frames),
           JobAddStatus ''Crash during execution'']
          @ after_work w
      | Raises (BaseException name) \<Rightarrow> [Propagate name])"

text \<open>The effect of the actions on the database and the log. A propagating exception ends
  the thread: nothing after it is done.\<close>

datatype log_line = Info string | Error string

record world =
  store :: database
  log :: "log_line list"
  escaped :: "string option"

definition perform :: "job \<Rightarrow> int \<Rightarrow> action \<Rightarrow> world \<Rightarrow> world" where
  "perform j now a s =
     (case a of
        LogInfo m \<Rightarrow> s \<lparr> log := log s @ [Info m] \<rparr>
      | LogError m \<Rightarrow> s \<lparr> log := log s @ [Error m] \<rparr>
      | JobRelease delay \<Rightarrow> s \<lparr> store := release j delay now (store s) \<rparr>
      | JobFinish \<Rightarrow> s \<lparr> store := finish j now (store s) \<rparr>
      | JobAddStatus txt \<Rightarrow> s \<lparr> store := add_status j txt now (store s) \<rparr>
      | Propagate name \<Rightarrow> s \<lparr> escaped := Some name \<rparr>)"

fun perform_all :: "job \<Rightarrow> int \<Rightarrow> action list \<Rightarrow> world \<Rightarrow> world" where
  "perform_all j now [] s = s"
| "perform_all j now (a # as) s =
     (case escaped s of
        Some e \<Rightarrow> s
      | None \<Rightarrow> perform_all j now as (perform j now a s))"

definition run_worker :: "worker \<Rightarrow> outcome \<Rightarrow> int \<Rightarrow> world \<Rightarrow> world" where
  "run_worker w out now s = perform_all (wjob w) now (run w out) s"

section \<open>WorkerManager (manager.py)\<close>

text \<open>
  A module loaded from a worker file is kept as the list of its members that
  \<^verbatim>\<open>get_worker_for_file\<close> accepts (classes derived from BasicWorker that are not
  abstract and whose name does not start with two underscores), in the order of
  \<^verbatim>\<open>inspect.getmembers\<close>.
\<close>

type_synonym py_module = "worker_class list"

text \<open>
  The manager's own state. Its dictionaries are kept as association lists in insertion
  order (\<^verbatim>\<open>_worker_pool\<close> is iterated over). \<^verbatim>\<open>sys_modules\<close> holds the modules
  the manager has put into \<^verbatim>\<open>sys.modules\<close>. \<^verbatim>\<open>next_wid\<close> numbers the worker
  objects the manager creates.
\<close>

record manager =
  looping :: bool
  worker_map :: "(string \<times> worker_class) list"
  worker_pool :: "(string \<times> worker list) list"
  sys_modules :: "(string \<times> py_module) list"
  next_wid :: nat

definition init_manager :: manager where
  "init_manager =
     \<lparr> looping = True, worker_map = [], worker_pool = [],
       sys_modules = [], next_wid = 0 \<rparr>"

text \<open>
  What the manager sees of the outside during one call of \<^verbatim>\<open>delegate()\<close>: the clock,
  whether a file exists, the parts of its resolved path, the module loading it gives, and
  which worker threads are alive.
\<close>

record outside =
  unix_time :: int
  file_exists :: "string \<Rightarrow> bool"
  resolved_parts :: "string \<Rightarrow> string list"
  load_module :: "string \<Rightarrow> py_module"
  is_alive :: "nat \<Rightarrow> bool"

text \<open>\<^verbatim>\<open>get_worker_type_for_file(pythonfile)\<close>: the three substitutions and
  \<^verbatim>\<open>lower()\<close>.\<close>

definition word_chars :: string where
  "word_chars = ''0123456789abcdefghijklmnopqrstuvwxyzABCDEFGHIJKLMNOPQRSTUVWXYZ._''"

fun collapse_dots :: "string \<Rightarrow> string" where
  "collapse_dots (a # b # cs) =
     (if a = CHR ''.'' \<and> b = CHR ''.'' then collapse_dots (b # cs)
      else a # collapse_dots (b # cs))"
| "collapse_dots cs = cs"

definition lower :: "string \<Rightarrow> string" where
  "lower s =
     map (\<lambda>c. case map_of (zip ''ABCDEFGHIJKLMNOPQRSTUVWXYZ'' ''abcdefghijklmnopqrstuvwxyz'') c of
                 None \<Rightarrow> c | Some d \<Rightarrow> d) s"

definition get_worker_type_for_file :: "outside \<Rightarrow> string \<Rightarrow> string" where
  "get_worker_type_for_file env pf =
     (let joined = map (\<lambda>c. if c = CHR ''-'' then CHR ''_'' else c)
                     (join_str ''.'' (resolved_parts env pf));
          worker_type = filter (\<lambda>c. c \<in> set word_chars) joined;
          worker_type = collapse_dots worker_type
      in lower (dropWhile (\<lambda>c. c = CHR ''.'') worker_type))"

text \<open>\<^verbatim>\<open>get_worker_for_file(pythonfile)\<close>: the class and the manager with its caches
  filled.\<close>

definition import_module :: "outside \<Rightarrow> manager \<Rightarrow> string \<Rightarrow> string \<Rightarrow> manager" where
  "import_module env m worker_type pf =
     (case map_of (sys_modules m) worker_type of
        Some md \<Rightarrow> m
      | None \<Rightarrow> m \<lparr> sys_modules :=
                      AList.update worker_type (load_module env pf) (sys_modules m) \<rparr>)"

definition first_class :: "py_module option \<Rightarrow> worker_class option" where
  "first_class md = (case md of None \<Rightarrow> None | Some cs \<Rightarrow> (case cs of [] \<Rightarrow> None | c # _ \<Rightarrow> Some c))"

definition scan_module ::
  "outside \<Rightarrow> manager \<Rightarrow> string \<Rightarrow> string \<Rightarrow> worker_class option \<times> manager" where
  "scan_module env m worker_type pf =
     (let m1 = import_module env m worker_type pf in
      case first_class (map_of (sys_modules m1) worker_type) of
        None \<Rightarrow> (None, m1)
      | Some c \<Rightarrow>
          (Some c, m1 \<lparr> worker_map := AList.update worker_type c (worker_map m1) \<rparr>))"

definition get_worker_for_file ::
  "outside \<Rightarrow> manager \<Rightarrow> string \<Rightarrow> worker_class option \<times> manager" where
  "get_worker_for_file env m pf =
     (let worker_type = get_worker_type_for_file env pf in
      case map_of (worker_map m) worker_type of
        Some c \<Rightarrow> (Some c, m)
      | None \<Rightarrow> scan_module env m worker_type pf)"

text \<open>
  The clean-up loop of \<^verbatim>\<open>delegate()\<close> over one list of the pool. The list it iterates
  over is the list it removes from, so the loop is one over the index.
\<close>

function reap :: "(nat \<Rightarrow> bool) \<Rightarrow> nat \<Rightarrow> worker list \<Rightarrow> worker list" where
  "reap alive i ws =
     (if i < length ws
      then (if \<not> alive (wid (ws ! i))
            then reap alive (Suc i) (remove1 (ws ! i) ws)
            else reap alive (Suc i) ws)
      else ws)"
  by pat_completeness auto
termination
  by (relation "measure (\<lambda>(alive, i, ws). length ws - i)") (auto simp: length_remove1)

definition pool_of :: "manager \<Rightarrow> string \<Rightarrow> worker list" where
  "pool_of m t = (case map_of (worker_pool m) t of None \<Rightarrow> [] | Some ws \<Rightarrow> ws)"

text \<open>The \<^verbatim>\<open>try\<close> block of \<^verbatim>\<open>delegate()\<close>: claim the job, make the worker, start
  it and put it in the pool; a JobClaimedException skips the job.\<close>

definition start_worker ::
  "outside \<Rightarrow> job \<Rightarrow> worker_class \<Rightarrow> string \<Rightarrow> manager \<times> database \<Rightarrow> manager \<times> database" where
  "start_worker env j worker_class worker_type s =
     (case claim j (unix_time env) (snd s) of
        None \<Rightarrow> s
      | Some c \<Rightarrow>
          (fst s \<lparr> worker_pool :=
                     AList.update worker_type
                       (pool_of (fst s) worker_type
                          @ [new_worker worker_class (next_wid (fst s)) (snd c) (unix_time env)])
                       (worker_pool (fst s)),
                   next_wid := Suc (next_wid (fst s)) \<rparr>, fst c))"

text \<open>The body of the loop over the jobs in \<^verbatim>\<open>delegate()\<close>, for one job and a class
  that was found.\<close>

definition offer_job ::
  "outside \<Rightarrow> job \<Rightarrow> worker_class \<Rightarrow> string \<Rightarrow> manager \<times> database \<Rightarrow> manager \<times> database" where
  "offer_job env j worker_class worker_type s =
     (let m2 = (if worker_type \<in> fst ` set (worker_pool (fst s)) then fst s
                else fst s \<lparr> worker_pool :=
                               AList.update worker_type [] (worker_pool (fst s)) \<rparr>)
      in if length (pool_of m2 worker_type) \<ge> max_workers worker_class
         then (m2, snd s)
         else start_worker env j worker_class worker_type (m2, snd s))"

definition delegate_job ::
  "outside \<Rightarrow> job \<Rightarrow> manager \<times> database \<Rightarrow> manager \<times> database" where
  "delegate_job env j s =
     (let pf = pythonfile (data j) in
      if \<not> file_exists env pf
      then (fst s, finish j (unix_time env)
                     (add_status j ''Job script does not exist. Cancelling.'' (unix_time env)
                        (snd s)))
      else
        let r = get_worker_for_file env (fst s) pf;
            worker_type = get_worker_type_for_file env pf
        in (case fst r of
              None \<Rightarrow> (snd r, snd s)
            | Some worker_class \<Rightarrow> offer_job env j worker_class worker_type (snd r, snd s)))"

text \<open>The clean-up of \<^verbatim>\<open>delegate()\<close>: every list of the pool loses the workers the
  loop above finds dead.\<close>

definition clean_up :: "outside \<Rightarrow> manager \<Rightarrow> manager" where
  "clean_up env m =
     m \<lparr> worker_pool := map (\<lambda>p. (fst p, reap (is_alive env) 0 (snd p))) (worker_pool m) \<rparr>"

text \<open>\<^verbatim>\<open>delegate()\<close>: the jobs are fetched first, then the pool is cleaned up, then the
  jobs are gone through.\<close>

definition delegate :: "outside \<Rightarrow> manager \<Rightarrow> database \<Rightarrow> manager \<times> database" where
  "delegate env m d =
     (let js = get_all_jobs d (unix_time env) ''*'' None True
      in fold (delegate_job env) js (clean_up env m, d))"

text \<open>\<^verbatim>\<open>abort()\<close> of the manager\<close>

definition abort :: "manager \<Rightarrow> manager" where
  "abort m = m \<lparr> looping := False \<rparr>"





text \<open>
  \<^verbatim>\<open>run()\<close>. The loop runs for as long as \<^verbatim>\<open>looping\<close> is set, and only another thread
  clears it. A \<^verbatim>\<open>turn\<close> is what one pass of the loop meets: the outside as
  \<^verbatim>\<open>delegate()\<close> sees it, what other threads do to the database while it runs and
  sleeps, and whether \<^verbatim>\<open>abort()\<close> is called meanwhile; \<^verbatim>\<open>pass\<close> is the state at
  the next test of \<^verbatim>\<open>looping\<close>. The result \<open>None\<close> of \<^verbatim>\<open>run_manager\<close> says
  that the loop is still running after the given turns.
\<close>

record turn =
  seen :: outside
  others :: "database \<Rightarrow> database"
  abort_called :: bool

definition pass :: "turn \<Rightarrow> manager \<times> database \<Rightarrow> manager \<times> database" where
  "pass t s =
     (let s' = delegate (seen t) (fst s) (snd s)
      in (if abort_called t then abort (fst s') else fst s', others t (snd s')))"


text \<open>
  The cap on the pool: the keys of the pool are distinct, and every list in it belongs to a
  type whose class \<^verbatim>\<open>_worker_map\<close> knows and is no longer than \<^verbatim>\<open>max_workers\<close> of
  that class.
\<close>

definition within_cap :: "manager \<Rightarrow> bool" where
  "within_cap m \<longleftrightarrow>
     distinct (map fst (worker_pool m)) \<and>
     (\<forall>p \<in> set (worker_pool m).
        case map_of (worker_map m) (fst p) of
          None \<Rightarrow> False
        | Some c \<Rightarrow> length (snd p) \<le> max_workers c)"

section \<open>Calling \<^verbatim>\<open>add_job\<close> repeatedly\<close>

text \<open>The unique index on \<^verbatim>\<open>(pythonfile, remote_id)\<close> as a property of a table, and the
  rows of a table with a given pair.\<close>

definition unique_jobs :: "database \<Rightarrow> bool" where
  "unique_jobs db \<longleftrightarrow> distinct (map (\<lambda>r. (pythonfile r, remote_id r)) (jobs db))"

definition rows_with :: "database \<Rightarrow> string \<Rightarrow> string \<Rightarrow> row list" where
  "rows_with db pf rid = filter (\<lambda>r. pythonfile r = pf \<and> remote_id r = rid) (jobs db)"

text \<open>A client that calls \<^verbatim>\<open>add_job\<close> for the same type and remote id again and again;
  each call has its own time, uuid, details, \<^verbatim>\<open>claim_after\<close> and \<^verbatim>\<open>interval\<close>.\<close>

record add_job_args =
  at_time :: int
  fresh_uuid :: string
  dumped :: string
  claim_after :: int
  every :: int

fun add_job_again ::
  "database \<Rightarrow> string \<Rightarrow> string option \<Rightarrow> add_job_args list \<Rightarrow> error + database" where
  "add_job_again db pf rid [] = Inr db"
| "add_job_again db pf rid (a # as) =
     (case add_job db (at_time a) (fresh_uuid a) pf (dumped a) rid (claim_after a) (every a) of
        Inl e \<Rightarrow> Inl e
      | Inr p \<Rightarrow> add_job_again (fst p) pf rid as)"

section \<open>Example tables\<close>

definition row_a :: row where
  "row_a = \<lparr> job_id = 1, pythonfile = ''w'', remote_id = ''a'', details = ''null'',
     timestamp = 10, timestamp_after = 0, timestamp_claimed = 50,
     timestamp_lastclaimed = 50, interval = 0, attempts = 1, status = [] \<rparr>"

definition row_b :: row where
  "row_b = \<lparr> job_id = 2, pythonfile = ''w'', remote_id = ''b'', details = ''null'',
     timestamp = 20, timestamp_after = 0, timestamp_claimed = 0,
     timestamp_lastclaimed = 0, interval = 0, attempts = 0, status = [] \<rparr>"

definition row_c :: row where
  "row_c = \<lparr> job_id = 3, pythonfile = ''w'', remote_id = ''c'', details = ''null'',
     timestamp = 30, timestamp_after = 0, timestamp_claimed = 0,
     timestamp_lastclaimed = 0, interval = 0, attempts = 0, status = [] \<rparr>"

text \<open>A one-shot job that was claimed at 100 and whose claim was cleared since.\<close>

definition row_released :: row where
  "row_released = \<lparr> job_id = 4, pythonfile = ''w'', remote_id = ''d'', details = ''null'',
     timestamp = 90, timestamp_after = 0, timestamp_claimed = 0,
     timestamp_lastclaimed = 100, interval = 0, attempts = 1, status = [] \<rparr>"

text \<open>A job that may be claimed after 500, and a job added with the empty string as its
  type.\<close>

definition row_deferred :: row where
  "row_deferred = \<lparr> job_id = 5, pythonfile = ''w'', remote_id = ''e'', details = ''null'',
     timestamp = 40, timestamp_after = 500, timestamp_claimed = 0,
     timestamp_lastclaimed = 0, interval = 0, attempts = 0, status = [] \<rparr>"

definition row_blank :: row where
  "row_blank = \<lparr> job_id = 6, pythonfile = [], remote_id = ''f'', details = ''null'',
     timestamp = 50, timestamp_after = 0, timestamp_claimed = 0,
     timestamp_lastclaimed = 0, interval = 0, attempts = 0, status = [] \<rparr>"

definition table_cab :: database where
  "table_cab = \<lparr> jobs = [row_c, row_a, row_b], next_id = 4 \<rparr>"

definition table_ab :: database where
  "table_ab = \<lparr> jobs = [row_a, row_b], next_id = 3 \<rparr>"

definition table_released :: database where
  "table_released = \<lparr> jobs = [row_released], next_id = 5 \<rparr>"

definition table_waiting :: database where
  "table_waiting = \<lparr> jobs = [row_a, row_deferred], next_id = 6 \<rparr>"

definition table_blank :: database where
  "table_blank = \<lparr> jobs = [row_blank], next_id = 7 \<rparr>"

definition table_empty :: database where
  "table_empty = \<lparr> jobs = [], next_id = 1 \<rparr>"

text \<open>Two calls of \<^verbatim>\<open>add_job\<close>, and the table after both when the remote id given is
  the empty string.\<close>

definition first_call :: add_job_args where
  "first_call = \<lparr> at_time = 100, fresh_uuid = ''3f2a'', dumped = ''null'',
     claim_after = 0, every = 0 \<rparr>"

definition second_call :: add_job_args where
  "second_call = \<lparr> at_time = 101, fresh_uuid = ''9c4e'', dumped = ''null'',
     claim_after = 0, every = 0 \<rparr>"

definition table_two_uuids :: database where
  "table_two_uuids =
     \<lparr> jobs =
         [\<lparr> job_id = 1, pythonfile = ''w'', remote_id = ''3f2a'', details = ''null'',
             timestamp = 100, timestamp_after = 0, timestamp_claimed = 0,
             timestamp_lastclaimed = 0, interval = 0, attempts = 0, status = [] \<rparr>,
          \<lparr> job_id = 2, pythonfile = ''w'', remote_id = ''9c4e'', details = ''null'',
             timestamp = 101, timestamp_after = 0, timestamp_claimed = 0,
             timestamp_lastclaimed = 0, interval = 0, attempts = 0, status = [] \<rparr>],
       next_id = 3 \<rparr>"

text \<open>The handle \<^verbatim>\<open>add_job("w", None, "b", claim_after=500, interval=60)\<close> returns at
  time 200.\<close>

definition handle_b_again :: job where
  "handle_b_again = Job \<lparr> job_id = None, pythonfile = ''w'', remote_id = ''b'',
     details = ''null'', timestamp = 200, timestamp_after = 500, timestamp_claimed = 0,
     timestamp_lastclaimed = 0, interval = 60, attempts = 0, status = None \<rparr>"

section \<open>Example workers and managers\<close>

definition basic_class :: worker_class where
  "basic_class = \<lparr> wtype = ''worker'', max_workers = 1, has_request_abort = True \<rparr>"

text \<open>The worker of job a, asked to stop and retry.\<close>

definition worker_a :: worker where
  "worker_a = \<lparr> wid = 0, wclass = basic_class, wjob = get_by_data (fetched row_a),
     interrupted = INTERRUPT_RETRY, init_time = 50 \<rparr>"

definition world_ab :: world where
  "world_ab = \<lparr> store = table_ab, log = [], escaped = None \<rparr>"

definition table_b :: database where
  "table_b = \<lparr> jobs = [row_b], next_id = 3 \<rparr>"

text \<open>An outside in which every worker file exists below \<^verbatim>\<open>/srv\<close> and holds the class
  above, the clock shows 100 and every thread is alive.\<close>

definition outside_100 :: outside where
  "outside_100 = \<lparr> unix_time = 100, file_exists = (\<lambda>f. True),
     resolved_parts = (\<lambda>f. [''/'', ''srv'', f]), load_module = (\<lambda>f. [basic_class]),
     is_alive = (\<lambda>i. True) \<rparr>"

definition table_bc :: database where
  "table_bc = \<lparr> jobs = [row_b, row_c], next_id = 4 \<rparr>"

text \<open>The job b once claimed at 100, its worker, and the manager that runs this worker.\<close>

definition row_b_claimed :: row where
  "row_b_claimed = row_b \<lparr> timestamp_claimed := 100, timestamp_lastclaimed := 100,
     attempts := 1 \<rparr>"

definition worker_b :: worker where
  "worker_b = \<lparr> wid = 0, wclass = basic_class, wjob = Job (fetched row_b_claimed),
     interrupted = INTERRUPT_NONE, init_time = 100 \<rparr>"

definition manager_b :: manager where
  "manager_b = \<lparr> looping = True, worker_map = [(''srv.w'', basic_class)],
     worker_pool = [(''srv.w'', [worker_b])], sys_modules = [(''srv.w'', [basic_class])],
     next_wid = 1 \<rparr>"

definition table_bc_claimed :: database where
  "table_bc_claimed = \<lparr> jobs = [row_b_claimed, row_c], next_id = 4 \<rparr>"





section \<open>Properties of the queue\<close>

subsection \<open>Selecting rows\<close>

lemma set_select_jobs: "set (select_jobs db cond) = {r \<in> set (jobs db). cond r}"
  by (auto simp: select_jobs_def)

lemma sorted_select_jobs: "sorted (map timestamp (select_jobs db cond))"
  by (simp add: select_jobs_def)

lemma length_select_jobs: "length (select_jobs db cond) = length (filter cond (jobs db))"
  by (simp add: select_jobs_def)

lemma data_get_by_data: "data (get_by_data d) = d"
  by (simp add: get_by_data_def)

lemma fetched_fields:
  "timestamp (fetched r) = timestamp r"
  "timestamp_claimed (fetched r) = timestamp_claimed r"
  "timestamp_after (fetched r) = timestamp_after r"
  "timestamp_lastclaimed (fetched r) = timestamp_lastclaimed r"
  "interval (fetched r) = interval r"
  "pythonfile (fetched r) = pythonfile r"
  "remote_id (fetched r) = remote_id r"
  "job_id (fetched r) = Some (job_id r)"
  by (simp_all add: fetched_def)

lemma select_jobs_Nil: "select_jobs db cond = [] \<longleftrightarrow> (\<forall>r \<in> set (jobs db). \<not> cond r)"
proof -
  have "select_jobs db cond = [] \<longleftrightarrow> set (select_jobs db cond) = {}" by simp
  then show ?thesis unfolding set_select_jobs by blast
qed

lemma select_jobs_hd_min:
  assumes "select_jobs db cond = r # rs" "r' \<in> set (jobs db)" "cond r'"
  shows "timestamp r \<le> timestamp r'"
proof -
  have "r' \<in> set (select_jobs db cond)" using assms(2,3) by (simp add: set_select_jobs)
  then have "r' \<in> set (r # rs)" using assms(1) by simp
  moreover have "sorted (map timestamp (r # rs))"
    using sorted_select_jobs[of db cond] assms by simp
  ultimately show ?thesis by auto
qed

lemma select_jobs_hd_in:
  assumes "select_jobs db cond = r # rs"
  shows "r \<in> set (jobs db) \<and> cond r"
proof -
  have "r \<in> set (select_jobs db cond)" using assms by simp
  then show ?thesis by (simp add: set_select_jobs)
qed

lemma distinct_map_sort_key:
  "distinct (map f xs) \<Longrightarrow> distinct (map f (sort_key f xs))"
  by (induction xs) (auto simp: distinct_insort_key)

lemma get_all_jobs_set:
  "set (get_all_jobs db now pf rid True) =
     (\<lambda>r. get_by_data (fetched r)) `
        {r \<in> set (jobs db). job_filter pf rid r \<and> claimable now r}"
  by (simp add: get_all_jobs_def set_select_jobs)

lemma get_all_jobs_mem:
  "j \<in> set (get_all_jobs db now pf rid True) \<longleftrightarrow>
     (\<exists>r \<in> set (jobs db). j = get_by_data (fetched r) \<and> job_filter pf rid r \<and> claimable now r)"
  by (auto simp: get_all_jobs_def set_select_jobs)

lemma get_job_Some:
  assumes "get_job db clock pf ts = Some j"
  shows "\<exists>r \<in> set (jobs db). j = get_by_data (fetched r) \<and> pythonfile r = pf
           \<and> claimable (if ts < 0 then clock else ts) r
           \<and> (\<forall>r' \<in> set (jobs db).
                 pythonfile r' = pf \<and> claimable (if ts < 0 then clock else ts) r'
                  \<longrightarrow> timestamp r \<le> timestamp r')"
proof -
  let ?t = "if ts < 0 then clock else ts"
  let ?c = "\<lambda>r. pythonfile r = pf \<and> claimable ?t r"
  obtain r rs where sel: "select_jobs db ?c = r # rs" and j: "j = get_by_data (fetched r)"
    using assms by (auto simp: get_job_def Let_def split: list.splits)
  have "r \<in> set (jobs db) \<and> ?c r" using select_jobs_hd_in[OF sel] .
  moreover have "\<forall>r' \<in> set (jobs db). ?c r' \<longrightarrow> timestamp r \<le> timestamp r'"
    using select_jobs_hd_min[OF sel] by blast
  ultimately show ?thesis using j by blast
qed

lemma get_job_None:
  "get_job db clock pf ts = None \<longleftrightarrow>
     (\<forall>r \<in> set (jobs db). pythonfile r = pf \<longrightarrow> \<not> claimable (if ts < 0 then clock else ts) r)"
proof -
  let ?c = "\<lambda>r. pythonfile r = pf \<and> claimable (if ts < 0 then clock else ts) r"
  have "get_job db clock pf ts = None \<longleftrightarrow> select_jobs db ?c = []"
    by (simp add: get_job_def Let_def split: list.splits)
  then show ?thesis by (simp add: select_jobs_Nil)
qed

lemma claimable_later:
  assumes "claimable now r"
    and "timestamp_after r = T \<or> interval r \<noteq> 0 \<and> timestamp_lastclaimed r + interval r = T"
  shows "T < now"
  using assms by (auto simp: claimable_def)

subsection \<open>Which jobs the queries return\<close>

text \<open>
  C3, as the claim states it, does not hold. The claim says that a job with
  \<^verbatim>\<open>timestamp_lastclaimed + interval = T\<close> is never returned while \<^verbatim>\<open>now \<le> T\<close>. For a
  one-shot job (\<^verbatim>\<open>interval = 0\<close>) the condition of the query does not look at
  \<^verbatim>\<open>timestamp_lastclaimed\<close>: the job below was last claimed at 100, its claim is cleared,
  and at time 100 both \<^verbatim>\<open>get_all_jobs\<close> and \<^verbatim>\<open>get_job\<close> return it.
\<close>

theorem one_shot_returned_at_lastclaimed:
  "timestamp_lastclaimed row_released + interval row_released = 100
   \<and> (100 :: int) \<le> 100
   \<and> get_all_jobs table_released 100 ''*'' None True = [get_by_data (fetched row_released)]
   \<and> get_job table_released 0 ''w'' 100 = Some (get_by_data (fetched row_released))"
  by (simp add: row_released_def table_released_def get_all_jobs_def get_job_def
      select_jobs_def job_filter_def truthy_def claimable_def)

text \<open>
  C3, amended: \<^verbatim>\<open>get_all_jobs(restrict_claimable=True)\<close> returns exactly the rows its
  filter on type or remote id selects and that satisfy \<^verbatim>\<open>timestamp_claimed = 0\<close>,
  \<^verbatim>\<open>timestamp_after < now\<close> and (\<^verbatim>\<open>interval = 0\<close> or
  \<^verbatim>\<open>timestamp_lastclaimed + interval < now\<close>); \<^verbatim>\<open>get_job(type, now)\<close> returns only a
  job of the type that satisfies the condition, and returns one whenever there is one. A
  job with \<^verbatim>\<open>timestamp_after = T\<close>, or with \<^verbatim>\<open>interval \<noteq> 0\<close> and
  \<^verbatim>\<open>timestamp_lastclaimed + interval = T\<close>, is never returned while \<^verbatim>\<open>now \<le> T\<close>. (A
  negative \<^verbatim>\<open>timestamp\<close> argument of \<^verbatim>\<open>get_job\<close> stands for the clock.)
\<close>

theorem get_all_jobs_get_job_claimable:
  "(\<forall>j. j \<in> set (get_all_jobs db now pf rid True) \<longleftrightarrow>
       (\<exists>r \<in> set (jobs db). j = get_by_data (fetched r) \<and> job_filter pf rid r
                               \<and> claimable now r))
   \<and> (\<forall>j. get_job db clock pf ts = Some j \<longrightarrow>
       (\<exists>r \<in> set (jobs db). j = get_by_data (fetched r) \<and> pythonfile r = pf
           \<and> claimable (if ts < 0 then clock else ts) r))
   \<and> (get_job db clock pf ts = None \<longleftrightarrow>
       (\<forall>r \<in> set (jobs db).
           pythonfile r = pf \<longrightarrow> \<not> claimable (if ts < 0 then clock else ts) r))
   \<and> (\<forall>j T. j \<in> set (get_all_jobs db now pf rid True)
         \<and> (timestamp_after (data j) = T
            \<or> interval (data j) \<noteq> 0
               \<and> timestamp_lastclaimed (data j) + interval (data j) = T)
       \<longrightarrow> T < now)
   \<and> (\<forall>j T. get_job db clock pf ts = Some j
         \<and> (timestamp_after (data j) = T
            \<or> interval (data j) \<noteq> 0
               \<and> timestamp_lastclaimed (data j) + interval (data j) = T)
       \<longrightarrow> T < (if ts < 0 then clock else ts))"
proof (intro conjI allI impI)
  fix j
  show "j \<in> set (get_all_jobs db now pf rid True) \<longleftrightarrow>
       (\<exists>r \<in> set (jobs db). j = get_by_data (fetched r) \<and> job_filter pf rid r
                               \<and> claimable now r)"
    by (rule get_all_jobs_mem)
next
  fix j assume "get_job db clock pf ts = Some j"
  from get_job_Some[OF this]
  show "\<exists>r \<in> set (jobs db). j = get_by_data (fetched r) \<and> pythonfile r = pf
           \<and> claimable (if ts < 0 then clock else ts) r" by blast
next
  show "get_job db clock pf ts = None \<longleftrightarrow>
       (\<forall>r \<in> set (jobs db).
           pythonfile r = pf \<longrightarrow> \<not> claimable (if ts < 0 then clock else ts) r)"
    by (rule get_job_None)
next
  fix j T
  assume a: "j \<in> set (get_all_jobs db now pf rid True)
         \<and> (timestamp_after (data j) = T
            \<or> interval (data j) \<noteq> 0
               \<and> timestamp_lastclaimed (data j) + interval (data j) = T)"
  then obtain r where r: "j = get_by_data (fetched r)" "claimable now r"
    by (auto simp: get_all_jobs_mem)
  show "T < now"
    using claimable_later[OF r(2), of T] a by (simp add: r(1) data_get_by_data fetched_fields)
next
  fix j T
  assume a: "get_job db clock pf ts = Some j
         \<and> (timestamp_after (data j) = T
            \<or> interval (data j) \<noteq> 0
               \<and> timestamp_lastclaimed (data j) + interval (data j) = T)"
  then obtain r where r: "j = get_by_data (fetched r)"
      "claimable (if ts < 0 then clock else ts) r"
    using get_job_Some[of db clock pf ts j] by blast
  show "T < (if ts < 0 then clock else ts)"
    using claimable_later[OF r(2), of T] a by (simp add: r(1) data_get_by_data fetched_fields)
qed

text \<open>The theorem at the table of the jobs c, a (claimed) and b, at time 100: b and c are
  returned, b by \<^verbatim>\<open>get_job\<close>, and their \<^verbatim>\<open>timestamp_after\<close> is before 100.\<close>

theorem get_all_jobs_get_job_claimable_witness:
  "get_by_data (fetched row_b) \<in> set (get_all_jobs table_cab 100 ''w'' None True)
   \<and> get_job table_cab 100 ''w'' (- 1) = Some (get_by_data (fetched row_b))
   \<and> get_by_data (fetched row_a) \<notin> set (get_all_jobs table_cab 100 ''w'' None True)
   \<and> timestamp_after (data (get_by_data (fetched row_b))) < 100"
proof -
  have g: "get_all_jobs table_cab 100 ''w'' None True
             = [get_by_data (fetched row_b), get_by_data (fetched row_c)]"
    by (simp add: row_a_def row_b_def row_c_def table_cab_def get_all_jobs_def
        select_jobs_def job_filter_def truthy_def claimable_def)
  have j: "get_job table_cab 100 ''w'' (- 1) = Some (get_by_data (fetched row_b))"
    by (simp add: row_a_def row_b_def row_c_def table_cab_def get_job_def
        select_jobs_def claimable_def)
  have m: "get_by_data (fetched row_b) \<in> set (get_all_jobs table_cab 100 ''w'' None True)"
    by (simp add: g)
  have n: "get_by_data (fetched row_a) \<notin> set (get_all_jobs table_cab 100 ''w'' None True)"
    by (simp add: g get_by_data_def fetched_def row_a_def row_b_def row_c_def)
  from get_all_jobs_get_job_claimable[of table_cab 100 "''w''" None 100 "- 1"] m
  have "timestamp_after (data (get_by_data (fetched row_b))) < 100" by blast
  with m j n show ?thesis by simp
qed

subsection \<open>The order of the jobs returned\<close>

text \<open>
  C8: \<^verbatim>\<open>get_all_jobs\<close> returns the jobs it selects in ascending order of
  \<^verbatim>\<open>timestamp\<close>, each claimable job once, and in strictly ascending order when the
  timestamps of the claimable jobs are distinct. \<^verbatim>\<open>get_job\<close> returns \<^verbatim>\<open>None\<close> exactly
  when no job of the type is claimable, and otherwise a claimable job of the type whose
  \<^verbatim>\<open>timestamp\<close> is the smallest among them. \<^verbatim>\<open>get_job\<close> only reads the table: it
  returns no new table, and the job it returns is still unclaimed.
\<close>

theorem get_all_jobs_fifo_get_job_first:
  "sorted (map (\<lambda>j. timestamp (data j)) (get_all_jobs db now pf rid rc))
   \<and> length (get_all_jobs db now pf rid True)
       = length (filter (\<lambda>r. job_filter pf rid r \<and> claimable now r) (jobs db))
   \<and> (distinct (map timestamp (filter (\<lambda>r. job_filter pf rid r \<and> claimable now r) (jobs db)))
        \<longrightarrow> sorted_wrt (<) (map (\<lambda>j. timestamp (data j)) (get_all_jobs db now pf rid True)))
   \<and> (get_job db clock pf ts = None \<longleftrightarrow>
       (\<forall>r \<in> set (jobs db).
           pythonfile r = pf \<longrightarrow> \<not> claimable (if ts < 0 then clock else ts) r))
   \<and> (\<forall>j. get_job db clock pf ts = Some j \<longrightarrow>
        timestamp_claimed (data j) = 0
        \<and> (\<exists>r \<in> set (jobs db). j = get_by_data (fetched r) \<and> pythonfile r = pf
              \<and> claimable (if ts < 0 then clock else ts) r
              \<and> (\<forall>r' \<in> set (jobs db).
                    pythonfile r' = pf \<and> claimable (if ts < 0 then clock else ts) r'
                    \<longrightarrow> timestamp r \<le> timestamp r')))"
proof (intro conjI allI impI)
  have m: "map (\<lambda>j. timestamp (data j)) (get_all_jobs db now pf rid rc)
        = map timestamp (select_jobs db (\<lambda>r. if rc then job_filter pf rid r \<and> claimable now r
               else job_filter pf rid r))" for rc
    by (simp add: get_all_jobs_def data_get_by_data fetched_fields comp_def)
  show "sorted (map (\<lambda>j. timestamp (data j)) (get_all_jobs db now pf rid rc))"
    unfolding m by (rule sorted_select_jobs)
  show "length (get_all_jobs db now pf rid True)
       = length (filter (\<lambda>r. job_filter pf rid r \<and> claimable now r) (jobs db))"
    by (simp add: get_all_jobs_def length_select_jobs)
  show "sorted_wrt (<) (map (\<lambda>j. timestamp (data j)) (get_all_jobs db now pf rid True))"
    if d: "distinct (map timestamp
             (filter (\<lambda>r. job_filter pf rid r \<and> claimable now r) (jobs db)))"
  proof -
    let ?xs = "filter (\<lambda>r. job_filter pf rid r \<and> claimable now r) (jobs db)"
    have "distinct (map timestamp (sort_key timestamp ?xs))"
      using d by (rule distinct_map_sort_key)
    moreover have "sorted (map timestamp (sort_key timestamp ?xs))" by simp
    ultimately have "sorted_wrt (<) (map timestamp (sort_key timestamp ?xs))"
      by (simp add: strict_sorted_iff)
    then show ?thesis unfolding m by (simp add: select_jobs_def)
  qed
  show "get_job db clock pf ts = None \<longleftrightarrow>
       (\<forall>r \<in> set (jobs db).
           pythonfile r = pf \<longrightarrow> \<not> claimable (if ts < 0 then clock else ts) r)"
    by (rule get_job_None)
next
  fix j assume g: "get_job db clock pf ts = Some j"
  from get_job_Some[OF g]
  show "\<exists>r \<in> set (jobs db). j = get_by_data (fetched r) \<and> pythonfile r = pf
              \<and> claimable (if ts < 0 then clock else ts) r
              \<and> (\<forall>r' \<in> set (jobs db).
                    pythonfile r' = pf \<and> claimable (if ts < 0 then clock else ts) r'
                    \<longrightarrow> timestamp r \<le> timestamp r')" .
  from get_job_Some[OF g] show "timestamp_claimed (data j) = 0"
    by (auto simp: data_get_by_data fetched_fields claimable_def)
qed

text \<open>The theorem at the table of the jobs c, a (claimed) and b, stored in that order, at
  time 100: the claimable jobs b and c have distinct timestamps and come back as b, c; the
  job \<^verbatim>\<open>get_job\<close> returns is b, unclaimed.\<close>

theorem get_all_jobs_fifo_get_job_first_witness:
  "distinct (map timestamp
      (filter (\<lambda>r. job_filter ''w'' None r \<and> claimable 100 r) (jobs table_cab)))
   \<and> sorted_wrt (<) (map (\<lambda>j. timestamp (data j)) (get_all_jobs table_cab 100 ''w'' None True))
   \<and> map (\<lambda>j. timestamp (data j)) (get_all_jobs table_cab 100 ''w'' None True) = [20, 30]
   \<and> get_job table_cab 100 ''w'' 100 = Some (get_by_data (fetched row_b))
   \<and> timestamp_claimed (data (get_by_data (fetched row_b))) = 0"
proof -
  have d: "distinct (map timestamp
      (filter (\<lambda>r. job_filter ''w'' None r \<and> claimable 100 r) (jobs table_cab)))"
    by (simp add: row_a_def row_b_def row_c_def table_cab_def job_filter_def truthy_def
        claimable_def)
  have g: "map (\<lambda>j. timestamp (data j)) (get_all_jobs table_cab 100 ''w'' None True) = [20, 30]"
    by (simp add: row_a_def row_b_def row_c_def table_cab_def get_all_jobs_def
        select_jobs_def job_filter_def truthy_def claimable_def data_get_by_data fetched_def)
  have j: "get_job table_cab 100 ''w'' 100 = Some (get_by_data (fetched row_b))"
    by (simp add: row_a_def row_b_def row_c_def table_cab_def get_job_def
        select_jobs_def claimable_def)
  from get_all_jobs_fifo_get_job_first[of table_cab 100 "''w''" None True 100 100] d j
  have "sorted_wrt (<) (map (\<lambda>j. timestamp (data j)) (get_all_jobs table_cab 100 ''w'' None True))
        \<and> timestamp_claimed (data (get_by_data (fetched row_b))) = 0"
    by blast
  with d g j show ?thesis by simp
qed

subsection \<open>\<^verbatim>\<open>has_jobs\<close>\<close>

text \<open>
  C10, as the claim states it, does not hold. Without a type \<^verbatim>\<open>get_all_jobs\<close> selects
  \<^verbatim>\<open>WHERE pythonfile != ''\<close>, so a job that was added with the empty string as its type
  is unclaimed, past its \<^verbatim>\<open>timestamp_after\<close> and one-shot, and \<^verbatim>\<open>has_jobs()\<close> is
  still false.
\<close>

theorem has_jobs_false_for_blank_type:
  "claimable 100 row_blank \<and> row_blank \<in> set (jobs table_blank)
   \<and> \<not> has_jobs table_blank 100"
  by (simp add: row_blank_def table_blank_def has_jobs_def get_all_jobs_def
      select_jobs_def job_filter_def truthy_def claimable_def)

text \<open>
  C10, amended: \<^verbatim>\<open>has_jobs()\<close> is true exactly when there is a job with a non-empty
  \<^verbatim>\<open>pythonfile\<close> that is unclaimed, past its \<^verbatim>\<open>timestamp_after\<close> and past its
  interval gap; so it is false while every row is claimed or deferred, whether or not the
  table is empty.
\<close>

theorem has_jobs_iff:
  "(has_jobs db now \<longleftrightarrow> (\<exists>r \<in> set (jobs db). pythonfile r \<noteq> [] \<and> claimable now r))
   \<and> ((\<forall>r \<in> set (jobs db). timestamp_claimed r \<noteq> 0 \<or> now \<le> timestamp_after r)
        \<longrightarrow> \<not> has_jobs db now)"
proof -
  have "has_jobs db now \<longleftrightarrow> set (get_all_jobs db now ''*'' None True) \<noteq> {}"
    by (simp add: has_jobs_def)
  then have "has_jobs db now \<longleftrightarrow> (\<exists>r \<in> set (jobs db). pythonfile r \<noteq> [] \<and> claimable now r)"
    unfolding get_all_jobs_set by (auto simp: job_filter_def truthy_def)
  then show ?thesis by (auto simp: claimable_def)
qed

text \<open>The theorem at a table with a claimed and a deferred job, which has no claimable
  job at time 100, and at the table of a and b, where b is claimable.\<close>

theorem has_jobs_iff_witness:
  "jobs table_waiting = [row_a, row_deferred]
   \<and> timestamp_claimed row_a = 50 \<and> timestamp_after row_deferred = 500
   \<and> \<not> has_jobs table_waiting 100
   \<and> row_b \<in> set (jobs table_ab) \<and> pythonfile row_b = ''w'' \<and> claimable 100 row_b
   \<and> has_jobs table_ab 100"
proof -
  have w: "\<forall>r \<in> set (jobs table_waiting). timestamp_claimed r \<noteq> 0 \<or> 100 \<le> timestamp_after r"
    by (simp add: table_waiting_def row_a_def row_deferred_def)
  have b: "row_b \<in> set (jobs table_ab) \<and> pythonfile row_b \<noteq> [] \<and> claimable 100 row_b"
    by (simp add: table_ab_def row_b_def claimable_def)
  have "\<not> has_jobs table_waiting 100"
    using has_jobs_iff[of table_waiting 100] w by blast
  moreover have "has_jobs table_ab 100"
    using has_jobs_iff[of table_ab 100] b by blast
  moreover have "jobs table_waiting = [row_a, row_deferred]" by (simp add: table_waiting_def)
  moreover have "timestamp_claimed row_a = 50 \<and> timestamp_after row_deferred = 500"
    by (simp add: row_a_def row_deferred_def)
  moreover have "pythonfile row_b = ''w''" by (simp add: row_b_def)
  ultimately show ?thesis using b by blast
qed

subsection \<open>\<^verbatim>\<open>get_place_in_queue\<close>\<close>

lemma get_place_in_queue_unclaimed:
  assumes "\<not> timestamp_claimed (data j) > 0"
  shows "get_place_in_queue db clock j =
     length (filter (\<lambda>r. timestamp r < timestamp (data j))
        (filter (\<lambda>r. job_filter (pythonfile (data j)) None r \<and> claimable clock r) (jobs db)))"
proof -
  have "filter (\<lambda>q. timestamp (data q) < t \<or> 0 < timestamp_claimed (data q))
          (map (\<lambda>r. get_by_data (fetched r)) xs)
        = map (\<lambda>r. get_by_data (fetched r)) (filter (\<lambda>r. timestamp r < t) xs)"
    if "\<forall>r \<in> set xs. timestamp_claimed r = 0" for xs :: "row list" and t
    using that by (induction xs) (simp_all add: data_get_by_data fetched_fields)
  moreover have "\<forall>r \<in> set (select_jobs db (\<lambda>r. job_filter (pythonfile (data j)) None r
                      \<and> claimable clock r)). timestamp_claimed r = 0"
    by (simp add: set_select_jobs claimable_def)
  ultimately have "get_place_in_queue db clock j
      = length (filter (\<lambda>r. timestamp r < timestamp (data j))
          (select_jobs db (\<lambda>r. job_filter (pythonfile (data j)) None r \<and> claimable clock r)))"
    using assms by (simp add: get_place_in_queue_def get_all_jobs_def Let_def)
  also have "\<dots> = length (filter (\<lambda>r. timestamp r < timestamp (data j))
        (filter (\<lambda>r. job_filter (pythonfile (data j)) None r \<and> claimable clock r) (jobs db)))"
    by (simp add: select_jobs_def filter_sort)
  finally show ?thesis .
qed

text \<open>
  C7: the claim is what the docstring of \<^verbatim>\<open>get_place_in_queue\<close> says (0 for a job that
  is being processed, 1 for the front of the queue), and the code does not do it. The jobs
  counted come from \<^verbatim>\<open>get_all_jobs(pythonfile=...)\<close>, which leaves
  \<^verbatim>\<open>restrict_claimable\<close> at \<^verbatim>\<open>True\<close>: no claimed job is among them, and only the
  claimable jobs with an earlier timestamp are counted. In the table of a (claimed) and b
  (unclaimed, first in line) the place of b is 0, the value for a job being processed.
\<close>

theorem get_place_in_queue_front_is_0:
  "timestamp_claimed (data (get_by_data (fetched row_b))) = 0
   \<and> get_place_in_queue table_ab 100 (get_by_data (fetched row_b)) = 0"
  by (simp add: get_place_in_queue_def get_all_jobs_def select_jobs_def table_ab_def
      row_a_def row_b_def fetched_def job_filter_def truthy_def claimable_def get_by_data_def)

subsection \<open>\<^verbatim>\<open>add_job\<close>\<close>

lemma add_job_data_fields:
  "job_id (add_job_data clock uuid pf dets rid ca iv) = None"
  "pythonfile (add_job_data clock uuid pf dets rid ca iv) = pf"
  "remote_id (add_job_data clock uuid pf dets rid ca iv)
     = (if \<not> truthy rid then uuid else the rid)"
  by (simp_all add: add_job_data_def)

lemma stored_fields:
  "pythonfile (stored i d) = pythonfile d" "remote_id (stored i d) = remote_id d"
  by (simp_all add: stored_def)

lemma conflicts_rows_with:
  "conflicts db d \<longleftrightarrow> rows_with db (pythonfile d) (remote_id d) \<noteq> []"
  by (auto simp: conflicts_def rows_with_def filter_empty_conv)

lemma add_job_cases:
  "add_job db clock uuid pf dets rid ca iv =
     (let d = add_job_data clock uuid pf dets rid ca iv in
      if conflicts db d then Inr (db, get_by_data d)
      else Inr (db \<lparr> jobs := jobs db @ [stored (next_id db) d], next_id := Suc (next_id db) \<rparr>,
                get_by_data d))"
proof -
  have s: "set [''pythonfile'', ''remote_id''] = {''pythonfile'', ''remote_id''}" by simp
  show ?thesis
    unfolding add_job_def insert_row_def on_conflict_def conflicts_id_def Let_def s
    by (simp add: add_job_data_fields)
qed

lemma unique_length_le_1:
  assumes "unique_jobs db"
  shows "length (rows_with db pf rid) \<le> 1"
proof -
  have "length (filter (\<lambda>r. f r = k) xs) \<le> 1" if "distinct (map f xs)"
    for f :: "row \<Rightarrow> string \<times> string" and k xs
    using that by (induction xs) (auto simp: filter_empty_conv image_iff)
  from this[of "\<lambda>r. (pythonfile r, remote_id r)" "jobs db" "(pf, rid)"] assms
  show ?thesis by (simp add: unique_jobs_def rows_with_def)
qed

lemma add_job_once:
  assumes "rid \<noteq> []" "unique_jobs db"
  shows "\<exists>db' j. add_job db clock uuid pf dets (Some rid) ca iv = Inr (db', j)
           \<and> length (rows_with db' pf rid) = 1 \<and> unique_jobs db'
           \<and> (rows_with db pf rid \<noteq> [] \<longrightarrow> db' = db)"
proof -
  let ?d = "add_job_data clock uuid pf dets (Some rid) ca iv"
  have f: "pythonfile ?d = pf" "remote_id ?d = rid"
    using assms(1) by (simp_all add: add_job_data_fields truthy_def)
  show ?thesis
  proof (cases "conflicts db ?d")
    case True
    then have ne: "rows_with db pf rid \<noteq> []" by (simp add: conflicts_rows_with f)
    then have "length (rows_with db pf rid) = 1"
      using unique_length_le_1[OF assms(2), of pf rid] by (cases "rows_with db pf rid") auto
    then show ?thesis using True assms(2) by (simp add: add_job_cases)
  next
    case False
    then have e: "rows_with db pf rid = []" by (simp add: conflicts_rows_with f)
    have n: "(pf, rid) \<notin> (\<lambda>r. (pythonfile r, remote_id r)) ` set (jobs db)"
      using False by (auto simp: conflicts_def f)
    let ?db' = "db \<lparr> jobs := jobs db @ [stored (next_id db) ?d],
                      next_id := Suc (next_id db) \<rparr>"
    have a: "add_job db clock uuid pf dets (Some rid) ca iv = Inr (?db', get_by_data ?d)"
      using False by (simp add: add_job_cases Let_def)
    have b: "length (rows_with ?db' pf rid) = 1"
      using e by (simp add: rows_with_def stored_fields f)
    have c: "unique_jobs ?db'"
      using n assms(2) by (simp add: unique_jobs_def stored_fields f)
    show ?thesis using a b c e by blast
  qed
qed

lemma add_job_never_raises:
  "\<exists>db' j. add_job db clock uuid pf dets rid ca iv = Inr (db', j)"
  by (simp add: add_job_cases Let_def)

lemma add_job_returns_its_arguments:
  "add_job db clock uuid pf dets rid ca iv = Inr (db', j) \<Longrightarrow>
     j = get_by_data (add_job_data clock uuid pf dets rid ca iv)"
  by (auto simp: add_job_cases Let_def split: if_splits)

text \<open>
  C2, as the claim states it, does not hold for every pair. \<^verbatim>\<open>add_job\<close> replaces a
  remote id that is false in Python, the empty string as well as \<^verbatim>\<open>None\<close>, by a fresh
  uuid. Two calls with the pair \<^verbatim>\<open>("w", "")\<close> on the empty table leave two rows, one per
  uuid, and no row with that pair.
\<close>

theorem add_job_blank_remote_id_two_rows:
  "add_job_again table_empty ''w'' (Some []) [first_call, second_call] = Inr table_two_uuids
   \<and> length (rows_with table_two_uuids ''w'' []) = 0
   \<and> length (jobs table_two_uuids) = 2"
proof -
  have "add_job_again table_empty ''w'' (Some []) [first_call, second_call]
          = Inr table_two_uuids"
    by (simp add: add_job_cases table_empty_def first_call_def second_call_def
      table_two_uuids_def add_job_data_def conflicts_def truthy_def stored_def)
  then show ?thesis
    by (simp add: table_two_uuids_def rows_with_def)
qed

text \<open>
  C2, amended: for every pair \<^verbatim>\<open>(pythonfile, remote_id)\<close> with a non-empty remote id,
  calling \<^verbatim>\<open>add_job\<close> with that pair once or more, on a table that satisfies its unique
  index, raises nothing and leaves exactly one row with that pair; when the table had such
  a row before the calls, the table is unchanged.
\<close>

theorem add_job_again_one_row:
  assumes "rid \<noteq> []" "unique_jobs db" "calls \<noteq> []"
  shows "\<exists>db'. add_job_again db pf (Some rid) calls = Inr db'
           \<and> length (rows_with db' pf rid) = 1 \<and> unique_jobs db'
           \<and> (rows_with db pf rid \<noteq> [] \<longrightarrow> db' = db)"
  using assms(3,2)
proof (induction calls arbitrary: db rule: list_nonempty_induct)
  case (single a)
  from add_job_once[OF assms(1) single, of "at_time a" "fresh_uuid a" pf "dumped a"
      "claim_after a" "every a"]
  show ?case by auto
next
  case (cons a as)
  from add_job_once[OF assms(1) cons.prems, of "at_time a" "fresh_uuid a" pf "dumped a"
      "claim_after a" "every a"]
  obtain db1 j where 1:
    "add_job db (at_time a) (fresh_uuid a) pf (dumped a) (Some rid) (claim_after a) (every a)
       = Inr (db1, j)"
    "length (rows_with db1 pf rid) = 1" "unique_jobs db1"
    "rows_with db pf rid \<noteq> [] \<longrightarrow> db1 = db"
    by blast
  from cons.IH[OF 1(3)] obtain db' where 2:
    "add_job_again db1 pf (Some rid) as = Inr db'"
    "length (rows_with db' pf rid) = 1" "unique_jobs db'"
    "rows_with db1 pf rid \<noteq> [] \<longrightarrow> db' = db1"
    by blast
  have "rows_with db1 pf rid \<noteq> []" using 1(2) by auto
  then have "db' = db1" using 2(4) by simp
  then show ?case using 1 2 by simp
qed

text \<open>The theorem at the table of a and b, with two calls for the pair \<^verbatim>\<open>("w", "b")\<close>
  that is there already, and two calls for the new pair \<^verbatim>\<open>("w", "z")\<close>.\<close>

theorem add_job_again_one_row_witness:
  "''b'' \<noteq> [] \<and> unique_jobs table_ab \<and> [first_call, second_call] \<noteq> []
   \<and> rows_with table_ab ''w'' ''b'' \<noteq> []
   \<and> add_job_again table_ab ''w'' (Some ''b'') [first_call, second_call] = Inr table_ab
   \<and> (\<exists>db'. add_job_again table_ab ''w'' (Some ''z'') [first_call, second_call] = Inr db'
          \<and> length (rows_with db' ''w'' ''z'') = 1)"
proof -
  have u: "unique_jobs table_ab"
    by (simp add: unique_jobs_def table_ab_def row_a_def row_b_def)
  have r: "rows_with table_ab ''w'' ''b'' \<noteq> []"
    by (simp add: rows_with_def table_ab_def row_a_def row_b_def)
  have "add_job_again table_ab ''w'' (Some ''b'') [first_call, second_call] = Inr table_ab"
    using add_job_again_one_row[of "''b''" table_ab "[first_call, second_call]" "''w''"] u r
    by auto
  moreover have "\<exists>db'. add_job_again table_ab ''w'' (Some ''z'') [first_call, second_call]
          = Inr db' \<and> length (rows_with db' ''w'' ''z'') = 1"
    using add_job_again_one_row[of "''z''" table_ab "[first_call, second_call]" "''w''"] u
    by auto
  ultimately show ?thesis using u r by simp
qed

text \<open>
  C6: the claim is what the docstring of \<^verbatim>\<open>add_job\<close> promises (the job returned may be
  the existing one), and the code does not do it. \<^verbatim>\<open>add_job\<close> never reads the table:
  the handle it returns is built from the dictionary of its arguments. With the job b in
  the table (id 2, enqueued at 20, claimable at once, one-shot), a second
  \<^verbatim>\<open>add_job("w", None, "b", claim_after=500, interval=60)\<close> at time 200 inserts nothing
  and returns a handle without an id, with timestamp 200, \<^verbatim>\<open>timestamp_after\<close> 500 and
  interval 60.
\<close>

theorem add_job_returns_arguments_on_conflict:
  "add_job table_ab 200 ''3f2a'' ''w'' ''null'' (Some ''b'') 500 60 = Inr (table_ab, handle_b_again)
   \<and> rows_with table_ab ''w'' ''b'' = [row_b]
   \<and> data handle_b_again \<noteq> fetched row_b
   \<and> job_id (data handle_b_again) = None
   \<and> timestamp (data handle_b_again) = 200 \<and> timestamp row_b = 20
   \<and> timestamp_after (data handle_b_again) = 500 \<and> timestamp_after row_b = 0"
proof -
  have s: "set [''pythonfile'', ''remote_id''] = {''pythonfile'', ''remote_id''}" by simp
  have "add_job table_ab 200 ''3f2a'' ''w'' ''null'' (Some ''b'') 500 60
          = Inr (table_ab, handle_b_again)"
    unfolding add_job_def insert_row_def on_conflict_def Let_def s
    by (simp add: table_ab_def row_a_def row_b_def handle_b_again_def get_by_data_def
      add_job_data_def conflicts_def truthy_def)
  moreover have "rows_with table_ab ''w'' ''b'' = [row_b]"
    by (simp add: rows_with_def table_ab_def row_a_def row_b_def)
  moreover have "data handle_b_again \<noteq> fetched row_b"
    by (simp add: handle_b_again_def fetched_def row_b_def)
  ultimately show ?thesis
    by (simp add: handle_b_again_def row_b_def)
qed

section \<open>Properties of the worker scaffold\<close>

lemma run_interrupted_retry:
  assumes "interrupted w = INTERRUPT_RETRY"
  shows "run w (Raises WorkerInterruptedException) =
     [LogInfo (''Worker '' @ wtype (wclass w) @ '' interrupted''), JobRelease 10, JobFinish]"
  using assms by (simp add: run_def after_work_def abort_worker_def)

lemma run_returns: "run w Returns = [JobFinish]"
  by (simp add: run_def after_work_def)

lemma jobs_finish_add_status:
  "jobs (finish j now (add_status j txt now d)) =
     concat (map (\<lambda>r. if is_row_of j r
                        then finish_row now (r \<lparr> status := status r @ [(now, txt)] \<rparr>)
                        else [r]) (jobs d))"
proof -
  have i: "is_row_of j (r \<lparr> status := s \<rparr>) = is_row_of j r" for r :: row and s
    by (simp add: is_row_of_def)
  show ?thesis
    unfolding finish_def add_status_def
    by (auto simp: i intro!: arg_cong[where f = concat])
qed

lemma rows_finish_add_status:
  assumes "r \<in> set (jobs (finish j now (add_status j txt now d)))" "is_row_of j r"
  shows "interval r \<noteq> 0 \<and> (now, txt) \<in> set (status r)
           \<and> (interval r > 0 \<longrightarrow> timestamp_claimed r = 0 \<and> timestamp_lastclaimed r = now)"
  using assms unfolding jobs_finish_add_status
  by (auto simp: finish_row_def split: if_splits)

text \<open>
  C1: the claim is what the branch for \<^verbatim>\<open>INTERRUPT_RETRY\<close> intends (the comment there:
  retry later or cancel the job altogether), and the code does not do it. The call of
  \<^verbatim>\<open>after_work()\<close> stands after the \<^verbatim>\<open>try\<close> statement, so after
  \<^verbatim>\<open>job.release(delay=10)\<close> the same run calls \<^verbatim>\<open>job.finish()\<close>. For the worker of
  the one-shot job a, interrupted at 60 with the flag at 1: release alone would leave a in
  the table with \<^verbatim>\<open>timestamp_after = 70\<close>; after the run a is gone.
\<close>

theorem run_retry_also_finishes:
  "interrupted worker_a = INTERRUPT_RETRY
   \<and> run worker_a (Raises WorkerInterruptedException)
       = [LogInfo ''Worker worker interrupted'', JobRelease 10, JobFinish]
   \<and> jobs (release (wjob worker_a) 10 60 table_ab)
       = [row_a \<lparr> timestamp_claimed := 0, timestamp_after := 70 \<rparr>, row_b]
   \<and> store (run_worker worker_a (Raises WorkerInterruptedException) 60 world_ab) = table_b"
proof -
  have r: "run worker_a (Raises WorkerInterruptedException)
       = [LogInfo ''Worker worker interrupted'', JobRelease 10, JobFinish]"
    by (simp add: run_def after_work_def abort_worker_def worker_a_def basic_class_def)
  have "jobs (release (wjob worker_a) 10 60 table_ab)
       = [row_a \<lparr> timestamp_claimed := 0, timestamp_after := 70 \<rparr>, row_b]"
    by (simp add: release_def worker_a_def table_ab_def is_row_of_def get_by_data_def
      fetched_def row_a_def row_b_def)
  moreover have "store (run_worker worker_a (Raises WorkerInterruptedException) 60 world_ab)
       = table_b"
    unfolding run_worker_def r
    by (simp add: perform_def world_ab_def release_def finish_def finish_row_def worker_a_def
      table_ab_def table_b_def is_row_of_def get_by_data_def fetched_def row_a_def row_b_def)
  moreover have "interrupted worker_a = INTERRUPT_RETRY" by (simp add: worker_a_def)
  ultimately show ?thesis using r by simp
qed

text \<open>
  C5, as the claim states it, does not hold for every exception. The scaffold catches with
  \<^verbatim>\<open>except Exception\<close>; an exception that does not derive from \<^verbatim>\<open>Exception\<close>, such as
  the SystemExit of \<^verbatim>\<open>sys.exit()\<close>, leaves \<^verbatim>\<open>run()\<close>: nothing is logged, no status is
  added and the job stays claimed.
\<close>

theorem run_lets_system_exit_escape:
  "run worker_a (Raises (BaseException ''SystemExit'')) = [Propagate ''SystemExit'']
   \<and> run_worker worker_a (Raises (BaseException ''SystemExit'')) 60 world_ab
       = world_ab \<lparr> escaped := Some ''SystemExit'' \<rparr>
   \<and> store world_ab = table_ab \<and> row_a \<in> set (jobs table_ab)
   \<and> timestamp_claimed row_a = 50"
  by (simp add: run_worker_def run_def perform_def world_ab_def table_ab_def row_a_def)

text \<open>
  C5, amended: if \<^verbatim>\<open>work()\<close> raises an exception that derives from \<^verbatim>\<open>Exception\<close> and
  is not a WorkerInterrupted, the scaffold catches it, so that it does not leave
  \<^verbatim>\<open>run()\<close>, logs it as an error with the trail of its frames (file name and line,
  joined by \<^verbatim>\<open>->\<close>), appends "Crash during execution" to the status of the job and then
  finishes the job through \<^verbatim>\<open>after_work()\<close>; it does not release the job. Of the rows of
  the job, the one-shot ones are deleted; one that stays has the status line and, when its
  interval is positive, is unclaimed with \<^verbatim>\<open>timestamp_lastclaimed = now\<close>.
\<close>

theorem run_crash_finishes:
  "run w (Raises (Exception name msg frames)) =
     [LogError (''Worker '' @ wtype (wclass w) @ '' raised exception '' @ name
                @ '' and will abort: '' @ msg @ '' at '' @ join_str ''->'' (map frame_str frames)),
      JobAddStatus ''Crash during execution'', JobFinish]
   \<and> (\<forall>delay. JobRelease delay \<notin> set (run w (Raises (Exception name msg frames))))
   \<and> (escaped s = None \<longrightarrow>
        escaped (run_worker w (Raises (Exception name msg frames)) now s) = None
        \<and> log (run_worker w (Raises (Exception name msg frames)) now s)
            = log s @ [Error (''Worker '' @ wtype (wclass w) @ '' raised exception '' @ name
                @ '' and will abort: '' @ msg @ '' at '' @ join_str ''->'' (map frame_str frames))]
        \<and> store (run_worker w (Raises (Exception name msg frames)) now s)
            = finish (wjob w) now (add_status (wjob w) ''Crash during execution'' now (store s))
        \<and> (\<forall>r \<in> set (jobs (store (run_worker w (Raises (Exception name msg frames)) now s))).
              is_row_of (wjob w) r \<longrightarrow>
                interval r \<noteq> 0 \<and> (now, ''Crash during execution'') \<in> set (status r)
                \<and> (interval r > 0 \<longrightarrow> timestamp_claimed r = 0 \<and> timestamp_lastclaimed r = now)))"
proof -
  let ?m = "''Worker '' @ wtype (wclass w) @ '' raised exception '' @ name
                @ '' and will abort: '' @ msg @ '' at '' @ join_str ''->'' (map frame_str frames)"
  let ?o = "Raises (Exception name msg frames)"
  have r: "run w ?o = [LogError ?m, JobAddStatus ''Crash during execution'', JobFinish]"
    by (simp add: run_def after_work_def location_def)
  have n: "\<forall>delay. JobRelease delay \<notin> set (run w ?o)"
    unfolding r by simp
  have e: "escaped s = None \<longrightarrow>
        escaped (run_worker w ?o now s) = None
        \<and> log (run_worker w ?o now s) = log s @ [Error ?m]
        \<and> store (run_worker w ?o now s)
            = finish (wjob w) now (add_status (wjob w) ''Crash during execution'' now (store s))
        \<and> (\<forall>r \<in> set (jobs (store (run_worker w ?o now s))).
              is_row_of (wjob w) r \<longrightarrow>
                interval r \<noteq> 0 \<and> (now, ''Crash during execution'') \<in> set (status r)
                \<and> (interval r > 0 \<longrightarrow> timestamp_claimed r = 0 \<and> timestamp_lastclaimed r = now))"
  proof (intro impI)
    assume a: "escaped s = None"
    have 1: "escaped (run_worker w ?o now s) = None"
      unfolding run_worker_def r using a by (simp add: perform_def)
    have 2: "log (run_worker w ?o now s) = log s @ [Error ?m]"
      unfolding run_worker_def r using a by (simp add: perform_def)
    have 3: "store (run_worker w ?o now s)
            = finish (wjob w) now (add_status (wjob w) ''Crash during execution'' now (store s))"
      unfolding run_worker_def r using a by (simp add: perform_def)
    have 4: "\<forall>r \<in> set (jobs (store (run_worker w ?o now s))).
              is_row_of (wjob w) r \<longrightarrow>
                interval r \<noteq> 0 \<and> (now, ''Crash during execution'') \<in> set (status r)
                \<and> (interval r > 0 \<longrightarrow> timestamp_claimed r = 0 \<and> timestamp_lastclaimed r = now)"
      unfolding 3 using rows_finish_add_status by blast
    from 1 2 3 4 show "escaped (run_worker w ?o now s) = None
        \<and> log (run_worker w ?o now s) = log s @ [Error ?m]
        \<and> store (run_worker w ?o now s)
            = finish (wjob w) now (add_status (wjob w) ''Crash during execution'' now (store s))
        \<and> (\<forall>r \<in> set (jobs (store (run_worker w ?o now s))).
              is_row_of (wjob w) r \<longrightarrow>
                interval r \<noteq> 0 \<and> (now, ''Crash during execution'') \<in> set (status r)
                \<and> (interval r > 0 \<longrightarrow> timestamp_claimed r = 0 \<and> timestamp_lastclaimed r = now))"
      by blast
  qed
  show ?thesis by (rule conjI[OF r conjI[OF n e]])
qed

text \<open>The theorem at the worker of job a, whose \<^verbatim>\<open>work()\<close> raises
  \<^verbatim>\<open>RuntimeError("boom")\<close> at time 60: the error is logged with its frames, nothing
  escapes, and the one-shot job a is deleted.\<close>

theorem run_crash_finishes_witness:
  "escaped world_ab = None
   \<and> run_worker worker_a
       (Raises (Exception ''RuntimeError'' ''boom'' [(''/srv/workers/w.py'', 12), (''helpers.py'', 204)]))
       60 world_ab
     = \<lparr> store = table_b,
         log = [Error ''Worker worker raised exception RuntimeError and will abort: boom at w.py:12->helpers.py:204''],
         escaped = None \<rparr>"
proof -
  let ?o = "Raises (Exception ''RuntimeError'' ''boom''
              [(''/srv/workers/w.py'', 12), (''helpers.py'', 204)])"
  have h: "escaped world_ab = None" by (simp add: world_ab_def)
  have m: "''Worker '' @ wtype (wclass worker_a) @ '' raised exception '' @ ''RuntimeError''
            @ '' and will abort: '' @ ''boom'' @ '' at ''
            @ join_str ''->'' (map frame_str [(''/srv/workers/w.py'', 12), (''helpers.py'', 204)])
        = ''Worker worker raised exception RuntimeError and will abort: boom at w.py:12->helpers.py:204''"
    by code_simp
  have d: "finish (wjob worker_a) 60
             (add_status (wjob worker_a) ''Crash during execution'' 60 (store world_ab)) = table_b"
    by (simp add: finish_def add_status_def finish_row_def worker_a_def world_ab_def
      table_ab_def table_b_def is_row_of_def get_by_data_def fetched_def row_a_def row_b_def)
  from run_crash_finishes[of worker_a "''RuntimeError''" "''boom''"
      "[(''/srv/workers/w.py'', 12), (''helpers.py'', 204)]" world_ab 60] h
  have "escaped (run_worker worker_a ?o 60 world_ab) = None"
    "log (run_worker worker_a ?o 60 world_ab) = log world_ab
       @ [Error ''Worker worker raised exception RuntimeError and will abort: boom at w.py:12->helpers.py:204'']"
    "store (run_worker worker_a ?o 60 world_ab) = table_b"
    unfolding m d by blast+
  then have "run_worker worker_a ?o 60 world_ab
     = \<lparr> store = table_b,
         log = [Error ''Worker worker raised exception RuntimeError and will abort: boom at w.py:12->helpers.py:204''],
         escaped = None \<rparr>"
    by (cases "run_worker worker_a ?o 60 world_ab") (simp add: world_ab_def)
  with h show ?thesis by simp
qed

section \<open>Properties of the manager\<close>

subsection \<open>The clean-up loop\<close>

declare reap.simps [simp del]

lemma length_reap: "length (reap alive i ws) \<le> length ws"
proof (induction alive i ws rule: reap.induct)
  case (1 alive i ws)
  show ?case
  proof (cases "i < length ws")
    case False
    then show ?thesis by (simp add: reap.simps[of alive i ws])
  next
    case True
    show ?thesis
    proof (cases "alive (wid (ws ! i))")
      case True
      with \<open>i < length ws\<close> 1(2) show ?thesis by (simp add: reap.simps[of alive i ws])
    next
      case False
      have "length (remove1 (ws ! i) ws) \<le> length ws" by (simp add: length_remove1)
      with False \<open>i < length ws\<close> 1(1) show ?thesis
        by (simp add: reap.simps[of alive i ws])
    qed
  qed
qed

lemma set_reap: "set (reap alive i ws) \<subseteq> set ws"
proof (induction alive i ws rule: reap.induct)
  case (1 alive i ws)
  show ?case
  proof (cases "i < length ws")
    case False
    then show ?thesis by (simp add: reap.simps[of alive i ws])
  next
    case True
    show ?thesis
    proof (cases "alive (wid (ws ! i))")
      case True
      with \<open>i < length ws\<close> 1(2) show ?thesis by (simp add: reap.simps[of alive i ws])
    next
      case False
      have "set (remove1 (ws ! i) ws) \<subseteq> set ws" by (rule set_remove1_subset)
      with False \<open>i < length ws\<close> 1(1) show ?thesis
        by (auto simp: reap.simps[of alive i ws])
    qed
  qed
qed

text \<open>The cap in terms of lookups in the two dictionaries.\<close>

lemma within_cap_lookup:
  "within_cap m \<longleftrightarrow>
     distinct (map fst (worker_pool m)) \<and>
     (\<forall>t ws. map_of (worker_pool m) t = Some ws \<longrightarrow>
        (\<exists>c. map_of (worker_map m) t = Some c \<and> length ws \<le> max_workers c))"
proof (cases "distinct (map fst (worker_pool m))")
  case False
  then show ?thesis by (simp add: within_cap_def)
next
  case True
  have q: "(case map_of (worker_map m) t of None \<Rightarrow> False | Some c \<Rightarrow> length ws \<le> max_workers c)
        \<longleftrightarrow> (\<exists>c. map_of (worker_map m) t = Some c \<and> length ws \<le> max_workers c)"
    for t and ws :: "worker list"
    by (cases "map_of (worker_map m) t") simp_all
  have s: "map_of (worker_pool m) t = Some ws \<longleftrightarrow> (t, ws) \<in> set (worker_pool m)" for t ws
    using True by simp
  have "within_cap m \<longleftrightarrow>
     (\<forall>p \<in> set (worker_pool m).
        \<exists>c. map_of (worker_map m) (fst p) = Some c \<and> length (snd p) \<le> max_workers c)"
    using True by (simp add: within_cap_def q)
  also have "\<dots> \<longleftrightarrow> (\<forall>t ws. (t, ws) \<in> set (worker_pool m) \<longrightarrow>
        (\<exists>c. map_of (worker_map m) t = Some c \<and> length ws \<le> max_workers c))"
    by auto
  finally show ?thesis using True by (simp add: s)
qed

lemma within_cap_init: "within_cap init_manager"
  by (simp add: within_cap_def init_manager_def)

lemma within_cap_pool_of:
  assumes "within_cap m" "map_of (worker_map m) t = Some c"
  shows "length (pool_of m t) \<le> max_workers c"
proof (cases "map_of (worker_pool m) t")
  case None
  then show ?thesis by (simp add: pool_of_def)
next
  case (Some ws)
  from assms(1) Some obtain c' where "map_of (worker_map m) t = Some c'"
      "length ws \<le> max_workers c'"
    unfolding within_cap_lookup by blast
  with assms(2) Some show ?thesis by (simp add: pool_of_def)
qed

lemma map_of_map_snd:
  "map_of (map (\<lambda>p. (fst p, f (snd p))) al) t = map_option f (map_of al t)"
  by (induction al) auto

lemma within_cap_clean_up:
  assumes "within_cap m"
  shows "within_cap (clean_up env m)"
proof -
  have k: "map fst (worker_pool (clean_up env m)) = map fst (worker_pool m)"
    by (simp add: clean_up_def comp_def)
  have w: "worker_map (clean_up env m) = worker_map m" by (simp add: clean_up_def)
  have l: "map_of (worker_pool (clean_up env m)) t
            = map_option (reap (is_alive env) 0) (map_of (worker_pool m) t)" for t
    by (simp add: clean_up_def map_of_map_snd)
  show ?thesis
    unfolding within_cap_lookup k w l
  proof (intro conjI allI impI)
    show "distinct (map fst (worker_pool m))" using assms by (simp add: within_cap_lookup)
  next
    fix t ws assume "map_option (reap (is_alive env) 0) (map_of (worker_pool m) t) = Some ws"
    then obtain ws0 where 0: "map_of (worker_pool m) t = Some ws0"
        "ws = reap (is_alive env) 0 ws0"
      by auto
    from assms 0(1) obtain c where c: "map_of (worker_map m) t = Some c"
        "length ws0 \<le> max_workers c"
      unfolding within_cap_lookup by blast
    have "length ws \<le> length ws0" unfolding 0(2) by (rule length_reap)
    with c show "\<exists>c. map_of (worker_map m) t = Some c \<and> length ws \<le> max_workers c"
      by auto
  qed
qed

lemma import_module_same:
  "worker_pool (import_module env m t pf) = worker_pool m"
  "worker_map (import_module env m t pf) = worker_map m"
  by (simp_all add: import_module_def split: option.splits)

lemma get_worker_for_file_pool:
  "worker_pool (snd (get_worker_for_file env m pf)) = worker_pool m"
  by (simp add: get_worker_for_file_def scan_module_def Let_def import_module_same
      split: option.splits)

lemma get_worker_for_file_map:
  assumes "map_of (worker_map m) t = Some c"
  shows "map_of (worker_map (snd (get_worker_for_file env m pf))) t = Some c"
  using assms
  by (auto simp: get_worker_for_file_def scan_module_def Let_def import_module_same
      update_conv' split: option.splits)

lemma get_worker_for_file_Some:
  assumes "fst (get_worker_for_file env m pf) = Some c"
  shows "map_of (worker_map (snd (get_worker_for_file env m pf)))
           (get_worker_type_for_file env pf) = Some c"
  using assms
  by (auto simp: get_worker_for_file_def scan_module_def Let_def import_module_same
      update_conv' split: option.splits)

lemma within_cap_get_worker_for_file:
  assumes "within_cap m"
  shows "within_cap (snd (get_worker_for_file env m pf))"
  using assms unfolding within_cap_lookup get_worker_for_file_pool
  by (meson get_worker_for_file_map)

lemma within_cap_update:
  assumes "within_cap m" "map_of (worker_map m) t = Some c" "length ws \<le> max_workers c"
  shows "within_cap (m \<lparr> worker_pool := AList.update t ws (worker_pool m) \<rparr>)"
  unfolding within_cap_lookup
proof (intro conjI allI impI)
  show "distinct (map fst (worker_pool (m \<lparr> worker_pool := AList.update t ws (worker_pool m) \<rparr>)))"
    using assms(1) by (simp add: within_cap_lookup distinct_update)
next
  fix t' ws'
  assume a: "map_of (worker_pool (m \<lparr> worker_pool := AList.update t ws (worker_pool m) \<rparr>)) t'
              = Some ws'"
  show "\<exists>c. map_of (worker_map (m \<lparr> worker_pool := AList.update t ws (worker_pool m) \<rparr>)) t'
              = Some c \<and> length ws' \<le> max_workers c"
  proof (cases "t' = t")
    case True
    with a have "ws' = ws" by (simp add: update_conv')
    with True assms(2,3) show ?thesis by simp
  next
    case False
    with a have "map_of (worker_pool m) t' = Some ws'" by (simp add: update_conv')
    with assms(1) show ?thesis unfolding within_cap_lookup by simp
  qed
qed

lemma within_cap_next_wid: "within_cap (m \<lparr> next_wid := n \<rparr>) = within_cap m"
  by (simp add: within_cap_def)

lemma within_cap_start_worker:
  assumes "within_cap m" "map_of (worker_map m) t = Some c"
    "length (pool_of m t) < max_workers c"
  shows "within_cap (fst (start_worker env j c t (m, d)))"
proof (cases "claim j (unix_time env) d")
  case None
  then show ?thesis using assms(1) by (simp add: start_worker_def)
next
  case (Some r)
  let ?w = "new_worker c (next_wid m) (snd r) (unix_time env)"
  have "within_cap (m \<lparr> worker_pool := AList.update t (pool_of m t @ [?w]) (worker_pool m) \<rparr>)"
    using assms(3) by (intro within_cap_update[OF assms(1,2)]) simp
  then have "within_cap (m \<lparr> worker_pool := AList.update t (pool_of m t @ [?w]) (worker_pool m),
                 next_wid := Suc (next_wid m) \<rparr>)"
    by (simp add: within_cap_def)
  then show ?thesis using Some by (simp add: start_worker_def)
qed

lemma within_cap_offer_job:
  assumes "within_cap m" "map_of (worker_map m) t = Some c"
  shows "within_cap (fst (offer_job env j c t (m, d)))"
proof -
  let ?m2 = "if t \<in> fst ` set (worker_pool m) then m
             else m \<lparr> worker_pool := AList.update t [] (worker_pool m) \<rparr>"
  have "within_cap (m \<lparr> worker_pool := AList.update t [] (worker_pool m) \<rparr>)"
    by (intro within_cap_update[OF assms]) simp
  then have c2: "within_cap ?m2" using assms(1) by simp
  have w2: "map_of (worker_map ?m2) t = Some c" using assms(2) by simp
  show ?thesis
  proof (cases "max_workers c \<le> length (pool_of ?m2 t)")
    case True
    then have "fst (offer_job env j c t (m, d)) = ?m2"
      unfolding offer_job_def Let_def fst_conv snd_conv by (simp only: if_True fst_conv)
    then show ?thesis using c2 by simp
  next
    case False
    then have "fst (offer_job env j c t (m, d)) = fst (start_worker env j c t (?m2, d))"
      unfolding offer_job_def Let_def fst_conv snd_conv by (simp only: if_False)
    moreover have "within_cap (fst (start_worker env j c t (?m2, d)))"
      using within_cap_start_worker[OF c2 w2] False by simp
    ultimately show ?thesis by simp
  qed
qed

lemma within_cap_delegate_job:
  assumes "within_cap (fst s)"
  shows "within_cap (fst (delegate_job env j s))"
proof (cases "file_exists env (pythonfile (data j))")
  case False
  then show ?thesis using assms by (simp add: delegate_job_def Let_def)
next
  case True
  let ?r = "get_worker_for_file env (fst s) (pythonfile (data j))"
  show ?thesis
  proof (cases "fst ?r")
    case None
    then show ?thesis
      using True within_cap_get_worker_for_file[OF assms, of env "pythonfile (data j)"]
      by (simp add: delegate_job_def Let_def)
  next
    case (Some c)
    from within_cap_offer_job[OF within_cap_get_worker_for_file[OF assms]
        get_worker_for_file_Some[OF Some]]
    show ?thesis using True Some by (simp add: delegate_job_def Let_def)
  qed
qed

lemma within_cap_fold_delegate_job:
  "within_cap (fst s) \<Longrightarrow> within_cap (fst (fold (delegate_job env) js s))"
  by (induction js arbitrary: s) (simp_all add: within_cap_delegate_job)

lemma within_cap_delegate:
  "within_cap m \<Longrightarrow> within_cap (fst (delegate env m d))"
  by (simp add: delegate_def Let_def within_cap_fold_delegate_job within_cap_clean_up)

lemma within_cap_abort: "within_cap (abort m) = within_cap m"
  by (simp add: within_cap_def abort_def)

lemma within_cap_pass:
  "within_cap (fst s) \<Longrightarrow> within_cap (fst (pass t s))"
  by (simp add: pass_def Let_def within_cap_delegate within_cap_abort)

lemma within_cap_fold_pass:
  "within_cap (fst s) \<Longrightarrow> within_cap (fst (fold pass ts s))"
  by (induction ts arbitrary: s) (simp_all add: within_cap_pass)

lemma offer_job_at_cap:
  assumes "map_of (worker_pool m) t = Some ws" "max_workers c \<le> length ws"
  shows "offer_job env j c t (m, d) = (m, d)"
proof -
  have "t \<in> fst ` set (worker_pool m)"
    using assms(1) by (metis domI dom_map_of_conv_image_fst)
  then show ?thesis using assms by (simp add: offer_job_def Let_def pool_of_def)
qed

subsection \<open>The cap on the pool\<close>

text \<open>
  C9: from the start of the manager (an empty pool), at every test of \<^verbatim>\<open>looping\<close>,
  whatever the outside and the other threads do during the passes, the pool is within the
  cap: every type in the pool has its class in \<^verbatim>\<open>_worker_map\<close>, and the list of every
  type \<open>t\<close> is no longer than \<^verbatim>\<open>max_workers\<close> of the class of \<open>t\<close>. Inside a pass the
  cap is kept by the clean-up and after every job of the loop over the jobs. The class
  \<^verbatim>\<open>delegate()\<close> tests a job against is the one \<^verbatim>\<open>_worker_map\<close> holds for its type, and
  a job whose type is at its cap is skipped: no claim is made and no worker is added.
\<close>

theorem pool_within_cap:
  "within_cap (fst (fold pass ts (init_manager, d)))
   \<and> (within_cap m \<longrightarrow>
         within_cap (clean_up env m)
         \<and> within_cap (fst (delegate_job env j (m, d')))
         \<and> within_cap (fst (delegate env m d')))
   \<and> (within_cap m \<longrightarrow>
         (\<forall>t c. map_of (worker_map m) t = Some c \<longrightarrow> length (pool_of m t) \<le> max_workers c))
   \<and> (fst (get_worker_for_file env m pf) = Some c \<longrightarrow>
         map_of (worker_map (snd (get_worker_for_file env m pf)))
           (get_worker_type_for_file env pf) = Some c)
   \<and> (map_of (worker_pool m) t = Some ws \<and> max_workers c \<le> length ws \<longrightarrow>
         offer_job env j c t (m, d') = (m, d'))"
proof (intro conjI impI allI)
  show "within_cap (fst (fold pass ts (init_manager, d)))"
    by (rule within_cap_fold_pass) (simp add: within_cap_init)
next
  assume "within_cap m"
  then show "within_cap (clean_up env m)" by (rule within_cap_clean_up)
next
  assume "within_cap m"
  then show "within_cap (fst (delegate_job env j (m, d')))"
    using within_cap_delegate_job[of "(m, d')" env j] by simp
next
  assume "within_cap m"
  then show "within_cap (fst (delegate env m d'))" by (rule within_cap_delegate)
next
  fix t c assume "within_cap m" "map_of (worker_map m) t = Some c"
  then show "length (pool_of m t) \<le> max_workers c" by (rule within_cap_pool_of)
next
  assume "fst (get_worker_for_file env m pf) = Some c"
  then show "map_of (worker_map (snd (get_worker_for_file env m pf)))
           (get_worker_type_for_file env pf) = Some c"
    by (rule get_worker_for_file_Some)
next
  assume "map_of (worker_pool m) t = Some ws \<and> max_workers c \<le> length ws"
  then show "offer_job env j c t (m, d') = (m, d')"
    using offer_job_at_cap[of m t ws c env j d'] by simp
qed

text \<open>The theorem at the first pass of a new manager over the table of b and c, both of
  type w with \<^verbatim>\<open>max_workers = 1\<close>: b gets a worker, c is skipped, and a further offer of
  c changes nothing.\<close>

theorem pool_within_cap_witness:
  "delegate outside_100 init_manager table_bc = (manager_b, table_bc_claimed)
   \<and> within_cap manager_b
   \<and> map_of (worker_map manager_b) ''srv.w'' = Some basic_class
   \<and> map_of (worker_pool manager_b) ''srv.w'' = Some [worker_b]
   \<and> length (pool_of manager_b ''srv.w'') \<le> max_workers basic_class
   \<and> max_workers basic_class \<le> length [worker_b]
   \<and> offer_job outside_100 (get_by_data (fetched row_c)) basic_class ''srv.w''
        (manager_b, table_bc_claimed) = (manager_b, table_bc_claimed)"
proof -
  note T = pool_within_cap[where ts = "[]" and d = table_bc and m = init_manager
      and env = outside_100 and d' = table_bc]
  note U = pool_within_cap[where ts = "[]" and d = table_bc and m = manager_b
      and env = outside_100 and d' = table_bc_claimed and t = "''srv.w''"
      and ws = "[worker_b]" and c = basic_class and j = "get_by_data (fetched row_c)"]
  have d: "delegate outside_100 init_manager table_bc = (manager_b, table_bc_claimed)"
    by code_simp
  have "within_cap init_manager" using T by simp
  then have "within_cap (fst (delegate outside_100 init_manager table_bc))" using T by blast
  then have w: "within_cap manager_b" by (simp add: d)
  have c: "map_of (worker_map manager_b) ''srv.w'' = Some basic_class"
    by (simp add: manager_b_def)
  have p: "map_of (worker_pool manager_b) ''srv.w'' = Some [worker_b]"
    by (simp add: manager_b_def)
  have m: "max_workers basic_class \<le> length [worker_b]" by (simp add: basic_class_def)
  have l: "length (pool_of manager_b ''srv.w'') \<le> max_workers basic_class"
    using U w c by blast
  have o: "offer_job outside_100 (get_by_data (fetched row_c)) basic_class ''srv.w''
        (manager_b, table_bc_claimed) = (manager_b, table_bc_claimed)"
    using U p m by blast
  from d w c p l m o show ?thesis by blast
qed

subsection \<open>The end of the loop\<close>










end
